theory Spec2Isabelle
  imports Complex_Main "HOL-Library.Log_Nat"
begin

text \<open>
  The valuation functions of the gold ledger (\<^verbatim>\<open>lib/utils/ledger-utils.ts\<close>), the ledger
  service with its read cache (\<^verbatim>\<open>services/api-service.ts\<close>) and the derivation effect of
  the transaction form, as shallow embeddings of the TypeScript source. Numbers are
  IEEE-754 doubles. The store behind \<^verbatim>\<open>fetch\<close> and the readings of the clock are
  parameters; the module-level cache is threaded through the service functions together
  with a log of the requests they issue.
\<close>

section \<open>JavaScript numbers\<close>

text \<open>
  A JavaScript \<^verbatim>\<open>number\<close> is an IEEE-754 binary64 value. The finite ones are
  rationals \<open>m * 2 ^ e\<close> with \<open>\<bar>m\<bar> < 2 ^ 53\<close> and \<open>e \<ge> -1074\<close>; every arithmetic
  operation computes the exact result and rounds it to the nearest such value, ties to
  the even mantissa, and to an infinity from \<open>2 ^ 1024 - 2 ^ 970\<close> on. Negative zero
  is identified with zero (as \<^verbatim>\<open>===\<close> does); no division by zero occurs in the
  source.
\<close>

datatype jsnum = Fin rat | PosInf | NegInf | NaN

text \<open>\<open>ilog2 q\<close> is the binary exponent of \<open>q \<noteq> 0\<close>: \<open>2 ^ ilog2 q \<le> \<bar>q\<bar> < 2 ^ (ilog2 q + 1)\<close>.\<close>

definition ilog2 :: "rat \<Rightarrow> int" where
  "ilog2 q = (case quotient_of \<bar>q\<bar> of (a, b) \<Rightarrow>
     let k = bitlen a - bitlen b in if 2 powi k \<le> \<bar>q\<bar> then k else k - 1)"

text \<open>The spacing of the doubles around \<open>q\<close>: 53 bits of mantissa, subnormal below \<open>2 ^ -1022\<close>.\<close>

definition ulp :: "rat \<Rightarrow> rat" where
  "ulp q = 2 powi (max (ilog2 q - 52) (- 1074))"

definition round_even :: "rat \<Rightarrow> int" where
  "round_even z = (let n = \<lfloor>z\<rfloor>; d = z - of_int n in
     if d < 1 / 2 then n else if 1 / 2 < d then n + 1 else if even n then n else n + 1)"

text \<open>Rounding of an exact result to a double.\<close>

definition rnd :: "rat \<Rightarrow> jsnum" where
  "rnd q = (if q = 0 then Fin 0 else
     let r = of_int (round_even (q / ulp q)) * ulp q in
     if 2 ^ 1024 \<le> r then PosInf else if r \<le> - (2 ^ 1024) then NegInf else Fin r)"

text \<open>The rationals that are doubles, and the well-formed numbers.\<close>

definition is_double :: "rat \<Rightarrow> bool" where
  "is_double q = (rnd q = Fin q)"

fun finite_num :: "jsnum \<Rightarrow> bool" where
  "finite_num (Fin q) = True"
| "finite_num _ = False"

text \<open>\<^verbatim>\<open>a * b\<close>\<close>

fun fmul :: "jsnum \<Rightarrow> jsnum \<Rightarrow> jsnum" where
  "fmul (Fin a) (Fin b) = rnd (a * b)"
| "fmul NaN _ = NaN"
| "fmul _ NaN = NaN"
| "fmul (Fin a) PosInf = (if a = 0 then NaN else if 0 < a then PosInf else NegInf)"
| "fmul (Fin a) NegInf = (if a = 0 then NaN else if 0 < a then NegInf else PosInf)"
| "fmul PosInf (Fin b) = (if b = 0 then NaN else if 0 < b then PosInf else NegInf)"
| "fmul NegInf (Fin b) = (if b = 0 then NaN else if 0 < b then NegInf else PosInf)"
| "fmul PosInf PosInf = PosInf"
| "fmul PosInf NegInf = NegInf"
| "fmul NegInf PosInf = NegInf"
| "fmul NegInf NegInf = PosInf"

text \<open>\<^verbatim>\<open>a - b\<close>\<close>

fun fsub :: "jsnum \<Rightarrow> jsnum \<Rightarrow> jsnum" where
  "fsub (Fin a) (Fin b) = rnd (a - b)"
| "fsub NaN _ = NaN"
| "fsub _ NaN = NaN"
| "fsub (Fin a) PosInf = NegInf"
| "fsub (Fin a) NegInf = PosInf"
| "fsub PosInf (Fin b) = PosInf"
| "fsub NegInf (Fin b) = NegInf"
| "fsub PosInf PosInf = NaN"
| "fsub PosInf NegInf = PosInf"
| "fsub NegInf PosInf = NegInf"
| "fsub NegInf NegInf = NaN"

text \<open>
  \<^verbatim>\<open>a / c\<close> for a finite non-zero divisor \<open>c\<close>: the only divisors of the source are the
  literals 5, 100 and 1000.
\<close>

fun fdiv :: "jsnum \<Rightarrow> rat \<Rightarrow> jsnum" where
  "fdiv (Fin a) c = rnd (a / c)"
| "fdiv NaN c = NaN"
| "fdiv PosInf c = (if 0 < c then PosInf else NegInf)"
| "fdiv NegInf c = (if 0 < c then NegInf else PosInf)"

text \<open>\<^verbatim>\<open>Math.floor\<close> and \<^verbatim>\<open>Math.round\<close> are exact; \<^verbatim>\<open>Math.round\<close> rounds a half up.\<close>

fun Math_floor :: "jsnum \<Rightarrow> jsnum" where
  "Math_floor (Fin q) = Fin (of_int \<lfloor>q\<rfloor>)"
| "Math_floor x = x"

fun Math_round :: "jsnum \<Rightarrow> jsnum" where
  "Math_round (Fin q) = Fin (of_int \<lfloor>q + 1 / 2\<rfloor>)"
| "Math_round x = x"

text \<open>Truthiness of a number: \<^verbatim>\<open>0\<close> and \<^verbatim>\<open>NaN\<close> are falsy.\<close>

fun truthy :: "jsnum \<Rightarrow> bool" where
  "truthy (Fin q) = (q \<noteq> 0)"
| "truthy NaN = False"
| "truthy _ = True"

text \<open>Truthiness of an optional number: \<^verbatim>\<open>undefined\<close> and \<^verbatim>\<open>null\<close> are falsy.\<close>

fun present :: "jsnum option \<Rightarrow> bool" where
  "present None = False"
| "present (Some x) = truthy x"

section \<open>Errors\<close>

text \<open>
  The exceptions of the program. \<open>InvalidInput\<close> is the error the specification names
  for non-finite arguments; no statement of the source constructs it.
\<close>

datatype error = Error string | TypeError string | SyntaxError string | InvalidInput

section \<open>lib/utils/ledger-utils.ts\<close>

definition roundToNearest5 :: "jsnum \<Rightarrow> jsnum" where
  "roundToNearest5 amount = fmul (Math_round (fdiv amount 5)) (Fin 5)"

definition truncateTo3Decimals :: "jsnum \<Rightarrow> jsnum" where
  "truncateTo3Decimals v = fdiv (Math_floor (fmul v (Fin 1000))) 1000"

definition calculatePureWeight :: "jsnum \<Rightarrow> jsnum \<Rightarrow> jsnum" where
  "calculatePureWeight grossWeight purity = truncateTo3Decimals (fmul grossWeight purity)"

text \<open>
  A call of one of the three exported functions: each body is a single
  \<^verbatim>\<open>return\<close> of an arithmetic expression, so the call completes with that value.
\<close>

definition call_roundToNearest5 :: "jsnum \<Rightarrow> error + jsnum" where
  "call_roundToNearest5 amount = Inr (roundToNearest5 amount)"

definition call_truncateTo3Decimals :: "jsnum \<Rightarrow> error + jsnum" where
  "call_truncateTo3Decimals v = Inr (truncateTo3Decimals v)"

definition call_calculatePureWeight :: "jsnum \<Rightarrow> jsnum \<Rightarrow> error + jsnum" where
  "call_calculatePureWeight grossWeight purity = Inr (calculatePureWeight grossWeight purity)"

section \<open>services/api-service.ts\<close>

record Ledger =
  id' :: string
  name :: string
  metalBalance :: jsnum
  cashBalance :: jsnum
  lastUpdated :: string

text \<open>
  The \<^verbatim>\<open>Transaction\<close> interface of the service, the shape of a created transaction as
  the store returns it.
\<close>

datatype txn_type = sale | purchase | metal_received | metal_given | cash_received | cash_given

record Transaction =
  txn_id :: string
  txn_ledgerId :: string
  txn_type :: txn_type
  txn_amount :: "jsnum option"
  txn_weight :: "jsnum option"
  txn_purity :: "jsnum option"
  txn_timestamp :: string

text \<open>
  The values of the transaction form (\<^verbatim>\<open>TransactionFormValues\<close>), and the object
  \<^verbatim>\<open>{...data, pureWeight, roundedAmount, balance}\<close> that \<^verbatim>\<open>onSubmit\<close> posts: the form
  values with the three state variables of the component. \<open>None\<close> is \<^verbatim>\<open>undefined\<close>
  for a form value and \<^verbatim>\<open>null\<close> for a state variable.
\<close>

record TransactionFormValues =
  ledgerId :: string
  type :: txn_type
  grossWeight :: "jsnum option"
  purity :: "jsnum option"
  rate :: "jsnum option"
  amount :: "jsnum option"
  paidAmount :: "jsnum option"

record NewTransaction = TransactionFormValues +
  pureWeight :: "jsnum option"
  roundedAmount :: "jsnum option"
  balance :: "jsnum option"

text \<open>
  The store collaborator behind \<^verbatim>\<open>fetch\<close>: a request either rejects (network failure)
  or resolves to a response with \<^verbatim>\<open>ok\<close>, \<^verbatim>\<open>statusText\<close> and the outcome of
  \<^verbatim>\<open>response.json()\<close>.
\<close>

record 'a response =
  ok :: bool
  statusText :: string
  json :: "error + 'a"

datatype 'a fetched = Rejected error | Resolved "'a response"

datatype request = GET string | POST string NewTransaction

record cached =
  data :: Ledger
  timestamp :: int

text \<open>
  The module state \<^verbatim>\<open>ledgerCache\<close>, with the log of the requests issued to the store.
\<close>

record world =
  ledgerCache :: "string \<rightharpoonup> cached"
  requests :: "request list"

definition API_BASE_URL :: string where
  "API_BASE_URL = ''http://localhost:8080''"

text \<open>The expiry window of the cache in milliseconds: the source sets it to 0 (its comment says 5 minutes).\<close>

definition CACHE_TTL :: int where
  "CACHE_TTL = 0"

text \<open>
  \<^verbatim>\<open>try { ... } catch (error) { console.error(...); throw new Error(msg) }\<close>: whatever
  the body throws, the caller receives \<^verbatim>\<open>new Error(msg)\<close>.
\<close>

definition catch_rethrow :: "string \<Rightarrow> (error + 'a) \<times> world \<Rightarrow> (error + 'a) \<times> world" where
  "catch_rethrow msg r = (case r of (Inl e, w) \<Rightarrow> (Inl (Error msg), w) | (Inr v, w) \<Rightarrow> (Inr v, w))"

text \<open>The body of the \<^verbatim>\<open>try\<close> block of \<^verbatim>\<open>getLedgers\<close>.\<close>

definition getLedgers_try :: "(string \<Rightarrow> Ledger list fetched) \<Rightarrow> world \<Rightarrow> (error + Ledger list) \<times> world" where
  "getLedgers_try fetch w =
    (let url = API_BASE_URL @ ''/api/ledgers'';
         w1 = w\<lparr>requests := requests w @ [GET url]\<rparr>
     in case fetch url of
          Rejected e \<Rightarrow> (Inl e, w1)
        | Resolved r \<Rightarrow>
            if \<not> ok r then (Inl (Error (''Error fetching ledgers: '' @ statusText r)), w1)
            else (json r, w1))"

definition getLedgers :: "(string \<Rightarrow> Ledger list fetched) \<Rightarrow> string option \<Rightarrow> world \<Rightarrow> (error + Ledger list) \<times> world" where
  "getLedgers fetch debouncedSearchValue w = catch_rethrow ''Failed to fetch ledgers'' (getLedgers_try fetch w)"

text \<open>
  The body of the \<^verbatim>\<open>try\<close> block of \<^verbatim>\<open>getLedger\<close>; \<open>now\<close> is the reading of
  \<^verbatim>\<open>Date.now()\<close> when the result is cached.
\<close>

definition getLedger_try :: "(string \<Rightarrow> Ledger fetched) \<Rightarrow> int \<Rightarrow> string \<Rightarrow> world \<Rightarrow> (error + Ledger) \<times> world" where
  "getLedger_try fetch now i w =
    (let url = API_BASE_URL @ ''/api/ledgers/'' @ i;
         w1 = w\<lparr>requests := requests w @ [GET url]\<rparr>
     in case fetch url of
          Rejected e \<Rightarrow> (Inl e, w1)
        | Resolved r \<Rightarrow>
            if \<not> ok r then (Inl (Error (''Error fetching ledger '' @ i @ '': '' @ statusText r)), w1)
            else (case json r of
                    Inl e \<Rightarrow> (Inl e, w1)
                  | Inr d \<Rightarrow> (Inr d, w1\<lparr>ledgerCache := (ledgerCache w1)(i \<mapsto> \<lparr>data = d, timestamp = now\<rparr>)\<rparr>)))"

text \<open>
  \<^verbatim>\<open>getLedger\<close> with the expiry window as a parameter; \<open>now0\<close> is the reading of
  \<^verbatim>\<open>Date.now()\<close> in the cache check, \<open>now1\<close> the one when the result is cached.
\<close>

definition getLedger_ttl :: "int \<Rightarrow> (string \<Rightarrow> Ledger fetched) \<Rightarrow> int \<Rightarrow> int \<Rightarrow> string \<Rightarrow> world \<Rightarrow> (error + Ledger) \<times> world" where
  "getLedger_ttl ttl fetch now0 now1 i w =
    (case ledgerCache w i of
       Some cachedLedger \<Rightarrow>
         if now0 - timestamp cachedLedger < ttl then (Inr (data cachedLedger), w)
         else catch_rethrow ''Failed to fetch ledger'' (getLedger_try fetch now1 i w)
     | None \<Rightarrow> catch_rethrow ''Failed to fetch ledger'' (getLedger_try fetch now1 i w))"

definition getLedger :: "(string \<Rightarrow> Ledger fetched) \<Rightarrow> int \<Rightarrow> int \<Rightarrow> string \<Rightarrow> world \<Rightarrow> (error + Ledger) \<times> world" where
  "getLedger = getLedger_ttl CACHE_TTL"

text \<open>The body of the \<^verbatim>\<open>try\<close> block of \<^verbatim>\<open>createTransaction\<close>.\<close>

definition createTransaction_try :: "(string \<Rightarrow> NewTransaction \<Rightarrow> Transaction fetched) \<Rightarrow> NewTransaction \<Rightarrow> world \<Rightarrow> (error + Transaction) \<times> world" where
  "createTransaction_try fetch transaction w =
    (let url = API_BASE_URL @ ''/api/ledgers/'' @ ledgerId transaction @ ''/transactions'';
         w1 = w\<lparr>requests := requests w @ [POST url transaction]\<rparr>
     in case fetch url transaction of
          Rejected e \<Rightarrow> (Inl e, w1)
        | Resolved r \<Rightarrow>
            if \<not> ok r then (Inl (Error (''Error creating transaction: '' @ statusText r)), w1)
            else (case json r of
                    Inl e \<Rightarrow> (Inl e, w1)
                  | Inr d \<Rightarrow> (Inr d, w1\<lparr>ledgerCache := (ledgerCache w1)(ledgerId transaction := None)\<rparr>)))"

definition createTransaction :: "(string \<Rightarrow> NewTransaction \<Rightarrow> Transaction fetched) \<Rightarrow> NewTransaction \<Rightarrow> world \<Rightarrow> (error + Transaction) \<times> world" where
  "createTransaction fetch transaction w =
     catch_rethrow ''Failed to create transaction'' (createTransaction_try fetch transaction w)"

section \<open>The transaction form (NewTransaction)\<close>

text \<open>The component's own \<^verbatim>\<open>truncateTo3Decimals\<close>, which passes \<^verbatim>\<open>null\<close> and \<^verbatim>\<open>undefined\<close> on as \<^verbatim>\<open>null\<close>.\<close>

definition truncateTo3Decimals_opt :: "jsnum option \<Rightarrow> jsnum option" where
  "truncateTo3Decimals_opt v = (case v of None \<Rightarrow> None | Some x \<Rightarrow> Some (truncateTo3Decimals x))"

text \<open>
  One run of the effect that derives pure weight, amount, rounded amount and balance.
  It reads the watched form values of the current render and writes the form's
  \<^verbatim>\<open>amount\<close> (\<^verbatim>\<open>form.setValue\<close>) and the three state variables.
\<close>

definition derive_effect :: "NewTransaction \<Rightarrow> NewTransaction" where
  "derive_effect c =
    (let c1 =
       (if present (grossWeight c) \<and> present (purity c) \<and> type c \<noteq> cash_received \<and> type c \<noteq> cash_given
        then
          let calculatedPureWeight =
                truncateTo3Decimals_opt (Some (fmul (the (grossWeight c)) (fdiv (the (purity c)) 100)));
              c' = c\<lparr>pureWeight := calculatedPureWeight\<rparr>
          in if present (rate c) \<and> present calculatedPureWeight
             then c'\<lparr>amount := Some (roundToNearest5 (fmul (the calculatedPureWeight) (the (rate c))))\<rparr>
             else c'
        else c\<lparr>pureWeight := None\<rparr>);
         c2 =
       (if present (amount c) then c1\<lparr>roundedAmount := Some (roundToNearest5 (the (amount c)))\<rparr>
        else c1\<lparr>roundedAmount := None\<rparr>)
     in if present (amount c) \<and> paidAmount c \<noteq> None
        then c2\<lparr>balance := Some (fsub (the (amount c)) (the (paidAmount c)))\<rparr>
        else c2\<lparr>balance := None\<rparr>)"

text \<open>
  Writing \<^verbatim>\<open>amount\<close> re-renders the component and the effect runs again on the new
  values; a second run changes no form value, so two runs give the state that is
  submitted.
\<close>

definition settle :: "NewTransaction \<Rightarrow> NewTransaction" where
  "settle c = derive_effect (derive_effect c)"

text \<open>
  \<^verbatim>\<open>transactionSchema\<close>: a non-empty ledger, a number (\<^verbatim>\<open>z.coerce.number()\<close> refuses
  \<^verbatim>\<open>NaN\<close>) where a value is given, and a purity between 0 and 100.
\<close>

definition is_number :: "jsnum option \<Rightarrow> bool" where
  "is_number v = (v \<noteq> Some NaN)"

definition transactionSchema :: "NewTransaction \<Rightarrow> bool" where
  "transactionSchema c =
    (ledgerId c \<noteq> [] \<and> is_number (grossWeight c) \<and> is_number (purity c) \<and> is_number (rate c) \<and>
     is_number (amount c) \<and> is_number (paidAmount c) \<and>
     (case purity c of
        None \<Rightarrow> True
      | Some (Fin p) \<Rightarrow> 0 \<le> p \<and> p \<le> 100
      | Some _ \<Rightarrow> False))"

text \<open>
  \<^verbatim>\<open>form.handleSubmit(onSubmit)\<close>: when the form validates, \<^verbatim>\<open>onSubmit\<close> posts the form
  values with the state variables; it catches a failure and only logs it.
\<close>

definition handleSubmit :: "(string \<Rightarrow> NewTransaction \<Rightarrow> Transaction fetched) \<Rightarrow> NewTransaction \<Rightarrow> world \<Rightarrow> world" where
  "handleSubmit fetch c w = (if transactionSchema c then snd (createTransaction fetch c w) else w)"

section \<open>Vocabulary of the properties\<close>

text \<open>
  A fetch succeeds when it resolves to a 2xx response whose body parses; a write is
  acknowledged when the response is 2xx. A cache entry is fresh while its age is below
  the expiry window. The URLs are the ones the service builds from \<open>API_BASE_URL\<close>.
\<close>

definition succeeds :: "'a fetched \<Rightarrow> 'a option" where
  "succeeds f = (case f of
      Rejected e \<Rightarrow> None
    | Resolved r \<Rightarrow> if ok r then (case json r of Inl e \<Rightarrow> None | Inr d \<Rightarrow> Some d) else None)"

definition fresh :: "int \<Rightarrow> int \<Rightarrow> world \<Rightarrow> string \<Rightarrow> bool" where
  "fresh ttl now w i = (case ledgerCache w i of None \<Rightarrow> False | Some c \<Rightarrow> now - timestamp c < ttl)"

definition ledger_url :: "string \<Rightarrow> string" where
  "ledger_url i = ''http://localhost:8080/api/ledgers/'' @ i"

definition transactions_url :: "string \<Rightarrow> string" where
  "transactions_url i = ''http://localhost:8080/api/ledgers/'' @ i @ ''/transactions''"

definition write_ok :: "'a fetched \<Rightarrow> bool" where
  "write_ok f = (case f of Rejected e \<Rightarrow> False | Resolved r \<Rightarrow> ok r)"

definition purchase1 :: NewTransaction where
  "purchase1 = \<lparr>ledgerId = ''1'', type = purchase, grossWeight = Some (Fin 10), purity = Some (Fin 100),
     rate = Some (Fin 50), amount = Some (Fin 500), paidAmount = Some (Fin 200),
     pureWeight = Some (Fin 10), roundedAmount = Some (Fin 500), balance = Some (Fin 300)\<rparr>"

definition created1 :: Transaction where
  "created1 = \<lparr>txn_id = ''t-17'', txn_ledgerId = ''1'', txn_type = purchase, txn_amount = Some (Fin 500),
     txn_weight = Some (Fin 10), txn_purity = Some (Fin 100), txn_timestamp = ''2024-01-02T10:00:00Z''\<rparr>"

definition ledger1 :: Ledger where
  "ledger1 = \<lparr>id' = ''1'', name = ''Main Vault'', metalBalance = Fin 10, cashBalance = Fin 500,
     lastUpdated = ''2024-01-01''\<rparr>"

definition world0 :: world where
  "world0 = \<lparr>ledgerCache = Map.empty, requests = []\<rparr>"

definition world1 :: world where
  "world1 = \<lparr>ledgerCache = [''1'' \<mapsto> \<lparr>data = ledger1, timestamp = 1000\<rparr>], requests = []\<rparr>"

definition fetch_ok :: "'a \<Rightarrow> 'a fetched" where
  "fetch_ok d = Resolved \<lparr>ok = True, statusText = ''OK'', json = Inr d\<rparr>"

definition fetch_404 :: "'a fetched" where
  "fetch_404 = Resolved \<lparr>ok = False, statusText = ''Not Found'', json = Inl (SyntaxError ''Unexpected end of JSON input'')\<rparr>"

text \<open>
  The specification's reading of the valuation functions, for comparison with the
  source: rounding of a half away from zero, and a purity given in percent.
\<close>

fun round_half_away :: "jsnum \<Rightarrow> jsnum" where
  "round_half_away (Fin q) = Fin (of_int (if 0 \<le> q then \<lfloor>q + 1 / 2\<rfloor> else - \<lfloor>- q + 1 / 2\<rfloor>))"
| "round_half_away x = x"

definition spec_roundToNearest5 :: "jsnum \<Rightarrow> jsnum" where
  "spec_roundToNearest5 x = fmul (round_half_away (fdiv x 5)) (Fin 5)"

definition spec_calculatePureWeight :: "jsnum \<Rightarrow> jsnum \<Rightarrow> jsnum" where
  "spec_calculatePureWeight g purityPercent =
     truncateTo3Decimals (fdiv (fmul g purityPercent) 100)"

text \<open>
  The derivation effect by field: the pure weight it derives, whether it writes the
  amount, and the amount it writes.
\<close>

definition weight_bearing :: "txn_type \<Rightarrow> bool" where
  "weight_bearing t = (t \<noteq> cash_received \<and> t \<noteq> cash_given)"

definition derived_pureWeight :: "NewTransaction \<Rightarrow> jsnum" where
  "derived_pureWeight c = truncateTo3Decimals (fmul (the (grossWeight c)) (fdiv (the (purity c)) 100))"

definition derives_amount :: "NewTransaction \<Rightarrow> bool" where
  "derives_amount c = (present (grossWeight c) \<and> present (purity c) \<and> weight_bearing (type c) \<and>
     present (rate c) \<and> truthy (derived_pureWeight c))"

definition derived_amount :: "NewTransaction \<Rightarrow> jsnum" where
  "derived_amount c = roundToNearest5 (fmul (derived_pureWeight c) (the (rate c)))"

text \<open>Forms used as examples.\<close>

definition form0 :: NewTransaction where
  "form0 = \<lparr>ledgerId = ''1'', type = purchase, grossWeight = None, purity = Some (Fin 100),
     rate = None, amount = None, paidAmount = None,
     pureWeight = None, roundedAmount = None, balance = None\<rparr>"

definition typed123 :: NewTransaction where
  "typed123 = form0\<lparr>grossWeight := Some (Fin 10), rate := Some (Fin 50), amount := Some (Fin 123)\<rparr>"

definition cash123 :: NewTransaction where
  "cash123 = form0\<lparr>type := cash_received, amount := Some (Fin 123)\<rparr>"

definition unpaid0 :: NewTransaction where
  "unpaid0 = form0\<lparr>type := cash_given, amount := Some (Fin 0), paidAmount := Some (Fin 200)\<rparr>"

definition weightless :: NewTransaction where
  "weightless = form0\<lparr>grossWeight := Some (Fin 0), rate := Some (Fin 50), amount := Some (Fin 123)\<rparr>"

definition dust :: NewTransaction where
  "dust = form0\<lparr>grossWeight := Some (Fin (1 / 8192)), rate := Some (Fin 50), amount := Some (Fin 123)\<rparr>"

section \<open>The ledger service\<close>

lemma getLedgers_try_requests:
  "snd (getLedgers_try fetch w) = w\<lparr>requests := requests w @ [GET ''http://localhost:8080/api/ledgers'']\<rparr>"
  by (simp add: getLedgers_try_def API_BASE_URL_def Let_def split: fetched.splits sum.splits)

lemma snd_catch_rethrow: "snd (catch_rethrow msg r) = snd r"
  by (simp add: catch_rethrow_def split: prod.splits sum.splits)

text \<open>
  C9: the result of \<open>getLedgers\<close> does not depend on its search argument: for any two
  arguments the same request, \<^verbatim>\<open>GET /api/ledgers\<close> without a query, is issued, and the
  results are equal for the same store.
\<close>

theorem getLedgers_ignores_search:
  "getLedgers fetch q1 w = getLedgers fetch q2 w \<and>
   snd (getLedgers fetch q1 w) = w\<lparr>requests := requests w @ [GET ''http://localhost:8080/api/ledgers'']\<rparr>"
  by (simp add: getLedgers_def snd_catch_rethrow getLedgers_try_requests)

lemma getLedger_try_success:
  "succeeds (fetch (ledger_url i)) = Some d \<Longrightarrow>
   getLedger_try fetch now i w =
     (Inr d, w\<lparr>requests := requests w @ [GET (ledger_url i)],
               ledgerCache := (ledgerCache w)(i \<mapsto> \<lparr>data = d, timestamp = now\<rparr>)\<rparr>)"
  by (auto simp: getLedger_try_def succeeds_def ledger_url_def API_BASE_URL_def Let_def
      split: fetched.splits sum.splits if_splits)

lemma getLedger_try_failure:
  "succeeds (fetch (ledger_url i)) = None \<Longrightarrow>
   \<exists>e. getLedger_try fetch now i w = (Inl e, w\<lparr>requests := requests w @ [GET (ledger_url i)]\<rparr>)"
  by (auto simp: getLedger_try_def succeeds_def ledger_url_def API_BASE_URL_def Let_def
      split: fetched.splits sum.splits if_splits)

lemma getLedger_miss:
  "\<not> fresh ttl now0 w i \<Longrightarrow>
   getLedger_ttl ttl fetch now0 now1 i w = catch_rethrow ''Failed to fetch ledger'' (getLedger_try fetch now1 i w)"
  by (auto simp: getLedger_ttl_def fresh_def split: option.splits)

lemma getLedger_miss_success:
  "\<not> fresh ttl now0 w i \<Longrightarrow> succeeds (fetch (ledger_url i)) = Some d \<Longrightarrow>
   getLedger_ttl ttl fetch now0 now1 i w =
     (Inr d, w\<lparr>requests := requests w @ [GET (ledger_url i)],
               ledgerCache := (ledgerCache w)(i \<mapsto> \<lparr>data = d, timestamp = now1\<rparr>)\<rparr>)"
  by (simp add: getLedger_miss getLedger_try_success catch_rethrow_def)

lemma getLedger_miss_failure:
  assumes "\<not> fresh ttl now0 w i" "succeeds (fetch (ledger_url i)) = None"
  shows "getLedger_ttl ttl fetch now0 now1 i w =
     (Inl (Error ''Failed to fetch ledger''), w\<lparr>requests := requests w @ [GET (ledger_url i)]\<rparr>)"
proof -
  obtain e where "getLedger_try fetch now1 i w = (Inl e, w\<lparr>requests := requests w @ [GET (ledger_url i)]\<rparr>)"
    using getLedger_try_failure[of fetch i now1 w] assms(2) by blast
  then show ?thesis using assms(1) by (simp add: getLedger_miss catch_rethrow_def)
qed

text \<open>
  C3, as amended: \<open>getLedger\<close> (for any expiry window; the source fixes it to
  \<open>CACHE_TTL = 0\<close>) returns the cached snapshot without a request when an entry younger than
  the window exists; otherwise it issues one request, and on success caches the result
  with the current time and returns it; on a failed fetch the cache is unchanged and the
  caller receives the fixed error \<^verbatim>\<open>Failed to fetch ledger\<close>, not the store's error.
  After a successful miss, a second call within the window issues no further request,
  and a second call after the window issues a second request.
\<close>

theorem getLedger_read_through:
  "(ledgerCache w i = Some c \<and> now0 - timestamp c < ttl \<longrightarrow>
      getLedger_ttl ttl fetch now0 now1 i w = (Inr (data c), w)) \<and>
   (\<not> fresh ttl now0 w i \<and> succeeds (fetch (ledger_url i)) = Some d \<longrightarrow>
      getLedger_ttl ttl fetch now0 now1 i w =
        (Inr d, w\<lparr>requests := requests w @ [GET (ledger_url i)],
                  ledgerCache := (ledgerCache w)(i \<mapsto> \<lparr>data = d, timestamp = now1\<rparr>)\<rparr>)) \<and>
   (\<not> fresh ttl now0 w i \<and> succeeds (fetch (ledger_url i)) = None \<longrightarrow>
      getLedger_ttl ttl fetch now0 now1 i w =
        (Inl (Error ''Failed to fetch ledger''), w\<lparr>requests := requests w @ [GET (ledger_url i)]\<rparr>)) \<and>
   (\<not> fresh ttl now0 w i \<and> succeeds (fetch (ledger_url i)) = Some d \<longrightarrow>
      (let w1 = snd (getLedger_ttl ttl fetch now0 now1 i w) in
        (now2 - now1 < ttl \<longrightarrow>
           getLedger_ttl ttl fetch2 now2 now3 i w1 = (Inr d, w1) \<and>
           requests w1 = requests w @ [GET (ledger_url i)]) \<and>
        (\<not> now2 - now1 < ttl \<longrightarrow>
           requests (snd (getLedger_ttl ttl fetch2 now2 now3 i w1)) =
             requests w @ [GET (ledger_url i), GET (ledger_url i)]))) \<and>
   getLedger fetch now0 now1 i w = getLedger_ttl 0 fetch now0 now1 i w"
proof (intro conjI impI)
  show "getLedger fetch now0 now1 i w = getLedger_ttl 0 fetch now0 now1 i w"
    by (simp add: getLedger_def CACHE_TTL_def)
next
  assume "ledgerCache w i = Some c \<and> now0 - timestamp c < ttl"
  then show "getLedger_ttl ttl fetch now0 now1 i w = (Inr (data c), w)"
    by (simp add: getLedger_ttl_def)
next
  assume "\<not> fresh ttl now0 w i \<and> succeeds (fetch (ledger_url i)) = Some d"
  then show "getLedger_ttl ttl fetch now0 now1 i w =
        (Inr d, w\<lparr>requests := requests w @ [GET (ledger_url i)],
                  ledgerCache := (ledgerCache w)(i \<mapsto> \<lparr>data = d, timestamp = now1\<rparr>)\<rparr>)"
    by (simp add: getLedger_miss_success)
next
  assume "\<not> fresh ttl now0 w i \<and> succeeds (fetch (ledger_url i)) = None"
  then show "getLedger_ttl ttl fetch now0 now1 i w =
        (Inl (Error ''Failed to fetch ledger''), w\<lparr>requests := requests w @ [GET (ledger_url i)]\<rparr>)"
    by (simp add: getLedger_miss_failure)
next
  assume a: "\<not> fresh ttl now0 w i \<and> succeeds (fetch (ledger_url i)) = Some d"
  define w1 where "w1 = w\<lparr>requests := requests w @ [GET (ledger_url i)],
                  ledgerCache := (ledgerCache w)(i \<mapsto> \<lparr>data = d, timestamp = now1\<rparr>)\<rparr>"
  have s: "snd (getLedger_ttl ttl fetch now0 now1 i w) = w1"
    using a by (simp add: getLedger_miss_success w1_def)
  have hit: "now2 - now1 < ttl \<Longrightarrow> getLedger_ttl ttl fetch2 now2 now3 i w1 = (Inr d, w1)"
    by (simp add: getLedger_ttl_def w1_def)
  have r1: "requests w1 = requests w @ [GET (ledger_url i)]"
    by (simp add: w1_def)
  have stale: "\<not> now2 - now1 < ttl \<Longrightarrow> \<not> fresh ttl now2 w1 i"
    by (simp add: fresh_def w1_def)
  have again: "\<not> now2 - now1 < ttl \<Longrightarrow>
      requests (snd (getLedger_ttl ttl fetch2 now2 now3 i w1)) = requests w1 @ [GET (ledger_url i)]"
  proof -
    assume n: "\<not> now2 - now1 < ttl"
    show ?thesis
    proof (cases "succeeds (fetch2 (ledger_url i))")
      case None
      then show ?thesis using stale[OF n] by (simp add: getLedger_miss_failure)
    next
      case (Some d2)
      then show ?thesis using stale[OF n] by (simp add: getLedger_miss_success)
    qed
  qed
  show "let w1 = snd (getLedger_ttl ttl fetch now0 now1 i w) in
        (now2 - now1 < ttl \<longrightarrow>
           getLedger_ttl ttl fetch2 now2 now3 i w1 = (Inr d, w1) \<and>
           requests w1 = requests w @ [GET (ledger_url i)]) \<and>
        (\<not> now2 - now1 < ttl \<longrightarrow>
           requests (snd (getLedger_ttl ttl fetch2 now2 now3 i w1)) =
             requests w @ [GET (ledger_url i), GET (ledger_url i)])"
    unfolding Let_def s using hit r1 again by simp
qed

lemma fresh_world0 [simp]: "\<not> fresh ttl now world0 i"
  by (simp add: fresh_def world0_def)

lemma succeeds_simps [simp]:
  "succeeds (fetch_ok d) = Some d" "succeeds fetch_404 = None" "succeeds (Rejected e) = None"
  by (simp_all add: succeeds_def fetch_ok_def fetch_404_def)

text \<open>
  C3, witness: the four cases at a window of five minutes: a hit, a successful miss, a failed miss, and
  the second call within and after the window.
\<close>

theorem getLedger_read_through_witness:
  "(ledgerCache world1 ''1'' = Some \<lparr>data = ledger1, timestamp = 1000\<rparr> \<and> (2000::int) - 1000 < 300000 \<and>
      getLedger_ttl 300000 (\<lambda>u. fetch_404) 2000 2001 ''1'' world1 = (Inr ledger1, world1)) \<and>
   (\<not> fresh 300000 2000 world0 ''1'' \<and> succeeds (fetch_ok ledger1) = Some ledger1 \<and>
      getLedger_ttl 300000 (\<lambda>u. fetch_ok ledger1) 2000 2001 ''1'' world0 =
        (Inr ledger1, world0\<lparr>requests := requests world0 @ [GET (ledger_url ''1'')],
                  ledgerCache := (ledgerCache world0)(''1'' \<mapsto> \<lparr>data = ledger1, timestamp = 2001\<rparr>)\<rparr>)) \<and>
   (succeeds (fetch_404 :: Ledger fetched) = None \<and>
      getLedger_ttl 300000 (\<lambda>u. fetch_404) 2000 2001 ''1'' world0 =
        (Inl (Error ''Failed to fetch ledger''), world0\<lparr>requests := requests world0 @ [GET (ledger_url ''1'')]\<rparr>)) \<and>
   ((5000::int) - 2001 < 300000 \<and>
      getLedger_ttl 300000 (\<lambda>u. fetch_404) 5000 5001 ''1''
         (snd (getLedger_ttl 300000 (\<lambda>u. fetch_ok ledger1) 2000 2001 ''1'' world0)) =
        (Inr ledger1, snd (getLedger_ttl 300000 (\<lambda>u. fetch_ok ledger1) 2000 2001 ''1'' world0))) \<and>
   (\<not> (400000::int) - 2001 < 300000 \<and>
      requests (snd (getLedger_ttl 300000 (\<lambda>u. fetch_404) 400000 400001 ''1''
         (snd (getLedger_ttl 300000 (\<lambda>u. fetch_ok ledger1) 2000 2001 ''1'' world0)))) =
        requests world0 @ [GET (ledger_url ''1''), GET (ledger_url ''1'')])"
proof -
  let ?c = "\<lparr>data = ledger1, timestamp = 1000\<rparr>"
  let ?w1 = "snd (getLedger_ttl 300000 (\<lambda>u. fetch_ok ledger1) 2000 2001 ''1'' world0)"
  have c: "ledgerCache world1 ''1'' = Some ?c"
    by (simp add: world1_def)
  have a1: "getLedger_ttl 300000 (\<lambda>u. fetch_404) 2000 2001 ''1'' world1 = (Inr ledger1, world1)"
    using getLedger_read_through[of world1 "''1''" ?c 2000 300000 "\<lambda>u. fetch_404" 2001 ledger1 0
        "\<lambda>u. fetch_404" 0] c by simp
  have a2: "getLedger_ttl 300000 (\<lambda>u. fetch_ok ledger1) 2000 2001 ''1'' world0 =
        (Inr ledger1, world0\<lparr>requests := requests world0 @ [GET (ledger_url ''1'')],
                  ledgerCache := (ledgerCache world0)(''1'' \<mapsto> \<lparr>data = ledger1, timestamp = 2001\<rparr>)\<rparr>)"
    using getLedger_read_through[of world0 "''1''" ?c 2000 300000 "\<lambda>u. fetch_ok ledger1" 2001 ledger1 0
        "\<lambda>u. fetch_404" 0] by simp
  have a3: "getLedger_ttl 300000 (\<lambda>u. fetch_404) 2000 2001 ''1'' world0 =
        (Inl (Error ''Failed to fetch ledger''), world0\<lparr>requests := requests world0 @ [GET (ledger_url ''1'')]\<rparr>)"
    using getLedger_read_through[of world0 "''1''" ?c 2000 300000 "\<lambda>u. fetch_404" 2001 ledger1 0
        "\<lambda>u. fetch_404" 0] by simp
  have h: "\<not> fresh 300000 2000 world0 ''1'' \<and> succeeds (fetch_ok ledger1) = Some ledger1"
    by simp
  have lt: "(5000::int) - 2001 < 300000" and ge: "\<not> (400000::int) - 2001 < 300000"
    by simp_all
  have a4: "getLedger_ttl 300000 (\<lambda>u. fetch_404) 5000 5001 ''1'' ?w1 = (Inr ledger1, ?w1)"
    using getLedger_read_through[of world0 "''1''" ?c 2000 300000 "\<lambda>u. fetch_ok ledger1" 2001 ledger1 5000
        "\<lambda>u. fetch_404" 5001] h lt unfolding Let_def by blast
  have a5: "requests (snd (getLedger_ttl 300000 (\<lambda>u. fetch_404) 400000 400001 ''1'' ?w1)) =
        requests world0 @ [GET (ledger_url ''1''), GET (ledger_url ''1'')]"
    using getLedger_read_through[of world0 "''1''" ?c 2000 300000 "\<lambda>u. fetch_ok ledger1" 2001 ledger1 400000
        "\<lambda>u. fetch_404" 400001] h ge unfolding Let_def by blast
  show ?thesis
    by (intro conjI c a1 a2 a3 a4 a5) simp_all
qed

text \<open>
  C3, counterexample: the claim as stated fails: a rejected fetch or a 404 of the store reaches the caller as
  \<^verbatim>\<open>Error("Failed to fetch ledger")\<close>; the error of the store is only logged.
\<close>

theorem getLedger_error_counterexample:
  "fst (getLedger (\<lambda>u. Rejected (TypeError ''Failed to fetch'')) 2000 2001 ''1'' world0)
     \<noteq> Inl (TypeError ''Failed to fetch'') \<and>
   fst (getLedger (\<lambda>u. fetch_404) 2000 2001 ''1'' world0) = Inl (Error ''Failed to fetch ledger'') \<and>
   fst (getLedger_try (\<lambda>u. fetch_404) 2001 ''1'' world0) = Inl (Error ''Error fetching ledger 1: Not Found'')"
  by (simp add: getLedger_def getLedger_ttl_def getLedger_try_def catch_rethrow_def world0_def
      fetch_404_def Let_def)

lemma createTransaction_try_success:
  "succeeds (fetch (transactions_url (ledgerId t)) t) = Some d \<Longrightarrow>
   createTransaction_try fetch t w =
     (Inr d, w\<lparr>requests := requests w @ [POST (transactions_url (ledgerId t)) t],
               ledgerCache := (ledgerCache w)(ledgerId t := None)\<rparr>)"
  by (auto simp: createTransaction_try_def succeeds_def transactions_url_def API_BASE_URL_def Let_def
      split: fetched.splits sum.splits if_splits)

lemma createTransaction_try_failure:
  "\<not> write_ok (fetch (transactions_url (ledgerId t)) t) \<Longrightarrow>
   \<exists>e. createTransaction_try fetch t w =
     (Inl e, w\<lparr>requests := requests w @ [POST (transactions_url (ledgerId t)) t]\<rparr>)"
  by (auto simp: createTransaction_try_def write_ok_def transactions_url_def API_BASE_URL_def Let_def
      split: fetched.splits sum.splits if_splits)

text \<open>
  C4, as amended: when the store answers 2xx with the created transaction,
  \<open>createTransaction\<close> removes the cache entry of the ledger and returns the store's
  transaction; when the request is rejected or the answer is not 2xx, the cache is
  unchanged, one request was issued (no retry), and the caller receives the fixed error
  \<^verbatim>\<open>Failed to create transaction\<close>, not the store's error.
\<close>

theorem createTransaction_invalidates:
  "(succeeds (fetch (transactions_url (ledgerId t)) t) = Some d \<longrightarrow>
      createTransaction fetch t w =
        (Inr d, w\<lparr>requests := requests w @ [POST (transactions_url (ledgerId t)) t],
                  ledgerCache := (ledgerCache w)(ledgerId t := None)\<rparr>)) \<and>
   (\<not> write_ok (fetch (transactions_url (ledgerId t)) t) \<longrightarrow>
      createTransaction fetch t w =
        (Inl (Error ''Failed to create transaction''),
         w\<lparr>requests := requests w @ [POST (transactions_url (ledgerId t)) t]\<rparr>))"
proof (intro conjI impI)
  assume "succeeds (fetch (transactions_url (ledgerId t)) t) = Some d"
  then show "createTransaction fetch t w =
        (Inr d, w\<lparr>requests := requests w @ [POST (transactions_url (ledgerId t)) t],
                  ledgerCache := (ledgerCache w)(ledgerId t := None)\<rparr>)"
    by (simp add: createTransaction_def createTransaction_try_success catch_rethrow_def)
next
  assume "\<not> write_ok (fetch (transactions_url (ledgerId t)) t)"
  then obtain e where "createTransaction_try fetch t w =
     (Inl e, w\<lparr>requests := requests w @ [POST (transactions_url (ledgerId t)) t]\<rparr>)"
    using createTransaction_try_failure[of fetch t w] by blast
  then show "createTransaction fetch t w =
        (Inl (Error ''Failed to create transaction''),
         w\<lparr>requests := requests w @ [POST (transactions_url (ledgerId t)) t]\<rparr>)"
    by (simp add: createTransaction_def catch_rethrow_def)
qed

lemma write_ok_simps [simp]:
  "write_ok (fetch_ok d)" "\<not> write_ok fetch_404" "\<not> write_ok (Rejected e)"
  by (simp_all add: write_ok_def fetch_ok_def fetch_404_def)

text \<open>
  C4, witness: a purchase on a cached ledger: acknowledged, and refused with 404.
\<close>

theorem createTransaction_invalidates_witness:
  "succeeds (fetch_ok created1) = Some created1 \<and>
   createTransaction (\<lambda>u b. fetch_ok created1) purchase1 world1 =
     (Inr created1, world1\<lparr>requests := requests world1 @ [POST (transactions_url ''1'') purchase1],
                           ledgerCache := (ledgerCache world1)(''1'' := None)\<rparr>) \<and>
   \<not> write_ok (fetch_404 :: Transaction fetched) \<and>
   createTransaction (\<lambda>u b. fetch_404) purchase1 world1 =
     (Inl (Error ''Failed to create transaction''),
      world1\<lparr>requests := requests world1 @ [POST (transactions_url ''1'') purchase1]\<rparr>) \<and>
   ledgerCache world1 ''1'' \<noteq> None"
proof -
  have i: "ledgerId purchase1 = ''1''"
    by (simp add: purchase1_def)
  have a1: "createTransaction (\<lambda>u b. fetch_ok created1) purchase1 world1 =
     (Inr created1, world1\<lparr>requests := requests world1 @ [POST (transactions_url ''1'') purchase1],
                           ledgerCache := (ledgerCache world1)(''1'' := None)\<rparr>)"
    using createTransaction_invalidates[of "\<lambda>u b. fetch_ok created1" purchase1 created1 world1]
    by (simp add: i)
  have a2: "createTransaction (\<lambda>u b. fetch_404) purchase1 world1 =
     (Inl (Error ''Failed to create transaction''),
      world1\<lparr>requests := requests world1 @ [POST (transactions_url ''1'') purchase1]\<rparr>)"
    using createTransaction_invalidates[of "\<lambda>u b. fetch_404" purchase1 created1 world1]
    by (simp add: i)
  have a3: "ledgerCache world1 ''1'' \<noteq> None"
    by (simp add: world1_def)
  show ?thesis
    by (intro conjI a1 a2 a3) simp_all
qed

text \<open>
  C4, counterexample: the claim as stated fails: the error of the store is replaced, not surfaced unchanged.
\<close>

theorem createTransaction_error_counterexample:
  "fst (createTransaction (\<lambda>u b. Rejected (TypeError ''Failed to fetch'')) purchase1 world1)
     \<noteq> Inl (TypeError ''Failed to fetch'') \<and>
   fst (createTransaction (\<lambda>u b. fetch_404) purchase1 world1) = Inl (Error ''Failed to create transaction'') \<and>
   fst (createTransaction_try (\<lambda>u b. fetch_404) purchase1 world1) =
     Inl (Error ''Error creating transaction: Not Found'')"
  by (simp add: createTransaction_def createTransaction_try_def catch_rethrow_def
      fetch_404_def Let_def)

section \<open>Rounding to a double\<close>

text \<open>The binary exponent brackets the magnitude, and is monotone.\<close>

lemma two_powi_pos [simp]: "(0::rat) < 2 powi k"
  by (simp add: power_int_def)

lemma bitlen_pow_bounds:
  assumes "0 < (a::int)"
  shows "(2::rat) powi (bitlen a - 1) \<le> of_int a" "of_int a < (2::rat) powi (bitlen a)"
proof -
  from bitlen_bounds[OF assms] have b: "2 ^ nat (bitlen a - 1) \<le> a" "a < 2 ^ nat (bitlen a)"
    by auto
  have pos: "1 \<le> bitlen a"
    using assms bitlen_eq_zero_iff[of a] bitlen_nonneg[of a] by linarith
  have "(2::rat) powi (bitlen a - 1) = 2 ^ nat (bitlen a - 1)"
    using pos by (simp add: power_int_def)
  also have "\<dots> = of_int (2 ^ nat (bitlen a - 1))" by simp
  also have "\<dots> \<le> of_int a" using b(1) by (simp only: of_int_le_iff)
  finally show "(2::rat) powi (bitlen a - 1) \<le> of_int a" .
  have "(2::rat) powi (bitlen a) = 2 ^ nat (bitlen a)"
    using pos by (simp add: power_int_def)
  also have "\<dots> = of_int (2 ^ nat (bitlen a))" by simp
  finally have e: "(2::rat) powi (bitlen a) = of_int (2 ^ nat (bitlen a))" .
  show "of_int a < (2::rat) powi (bitlen a)"
    unfolding e using b(2) by (simp only: of_int_less_iff)
qed

lemma ilog2_bounds:
  assumes "q \<noteq> 0"
  shows "2 powi (ilog2 q) \<le> \<bar>q\<bar>" "\<bar>q\<bar> < 2 powi (ilog2 q + 1)"
proof -
  obtain a b where ab: "quotient_of \<bar>q\<bar> = (a, b)" by (cases "quotient_of \<bar>q\<bar>")
  have bpos: "0 < b" using quotient_of_denom_pos[OF ab] .
  have q: "\<bar>q\<bar> = of_int a / of_int b" using quotient_of_div[OF ab] .
  have "0 < \<bar>q\<bar>" using assms by simp
  then have apos: "0 < a" using bpos unfolding q by (simp add: zero_less_divide_iff)
  define k where "k = bitlen a - bitlen b"
  have il: "ilog2 q = (if 2 powi k \<le> \<bar>q\<bar> then k else k - 1)"
    by (simp add: ilog2_def ab k_def Let_def)
  have bp: "(0::rat) < of_int b" using bpos by simp
  have up: "\<bar>q\<bar> < 2 powi (k + 1)"
  proof -
    have "of_int a < (2::rat) powi (bitlen a)" using bitlen_pow_bounds[OF apos] by simp
    moreover have "(2::rat) powi (bitlen b - 1) \<le> of_int b" using bitlen_pow_bounds[OF bpos] by simp
    moreover have "(2::rat) powi (bitlen a) = 2 powi (k + 1) * 2 powi (bitlen b - 1)"
      by (simp add: k_def power_int_add[symmetric])
    ultimately have "of_int a < (2::rat) powi (k + 1) * 2 powi (bitlen b - 1)"
      and "(2::rat) powi (k + 1) * 2 powi (bitlen b - 1) \<le> 2 powi (k + 1) * of_int b"
      by (simp_all add: mult_left_mono)
    then have "of_int a < (2::rat) powi (k + 1) * of_int b"
      by (rule less_le_trans)
    then show ?thesis unfolding q using bp by (simp add: pos_divide_less_eq)
  qed
  have lo: "2 powi (k - 1) \<le> \<bar>q\<bar>"
  proof -
    have "(2::rat) powi (bitlen a - 1) \<le> of_int a" using bitlen_pow_bounds[OF apos] by simp
    moreover have "of_int b < (2::rat) powi (bitlen b)" using bitlen_pow_bounds[OF bpos] by simp
    moreover have "(2::rat) powi (bitlen a - 1) = 2 powi (k - 1) * 2 powi (bitlen b)"
      by (simp add: k_def power_int_add[symmetric])
    ultimately have "(2::rat) powi (k - 1) * of_int b \<le> 2 powi (k - 1) * 2 powi (bitlen b)"
      and "(2::rat) powi (k - 1) * 2 powi (bitlen b) \<le> of_int a"
      by (simp_all add: mult_left_mono)
    then have "(2::rat) powi (k - 1) * of_int b \<le> of_int a"
      by (rule order_trans)
    then show ?thesis unfolding q using bp by (simp add: pos_le_divide_eq)
  qed
  show "2 powi (ilog2 q) \<le> \<bar>q\<bar>" using lo by (simp add: il)
  show "\<bar>q\<bar> < 2 powi (ilog2 q + 1)" using up by (auto simp: il)
qed

lemma ilog2_less:
  assumes "q \<noteq> 0" "\<bar>q\<bar> < 2 powi k"
  shows "ilog2 q < k"
proof (rule ccontr)
  assume "\<not> ilog2 q < k"
  then have "(2::rat) powi k \<le> 2 powi ilog2 q"
    by (intro power_int_increasing) simp_all
  with ilog2_bounds(1)[OF assms(1)] assms(2) show False by linarith
qed

lemma ilog2_ge:
  assumes "q \<noteq> 0" "2 powi k \<le> \<bar>q\<bar>"
  shows "k \<le> ilog2 q"
proof (rule ccontr)
  assume "\<not> k \<le> ilog2 q"
  then have "(2::rat) powi (ilog2 q + 1) \<le> 2 powi k"
    by (intro power_int_increasing) simp_all
  with ilog2_bounds(2)[OF assms(1)] assms(2) show False by linarith
qed

lemma ilog2_eq:
  assumes "2 powi k \<le> \<bar>q\<bar>" "\<bar>q\<bar> < 2 powi (k + 1)"
  shows "ilog2 q = k"
proof -
  have "0 < \<bar>q\<bar>" using assms(1) two_powi_pos[of k] by linarith
  then have q: "q \<noteq> 0" by simp
  have "ilog2 q < k + 1" using ilog2_less[OF q assms(2)] .
  moreover have "k \<le> ilog2 q" using ilog2_ge[OF q assms(1)] .
  ultimately show ?thesis by simp
qed

lemma ilog2_mono:
  assumes "0 < a" "a \<le> b"
  shows "ilog2 a \<le> ilog2 b"
proof -
  have a: "a \<noteq> 0" and b: "b \<noteq> 0" using assms by simp_all
  have "2 powi ilog2 a \<le> \<bar>a\<bar>" using ilog2_bounds(1)[OF a] .
  also have "\<dots> \<le> \<bar>b\<bar>" using assms by simp
  finally show ?thesis using ilog2_ge[OF b] by blast
qed

lemma ulp_pos [simp]: "0 < ulp q"
  by (simp add: ulp_def)

text \<open>Rounding to the nearest integer, ties to even.\<close>

lemma round_even_of_int [simp]: "round_even (of_int n) = n"
  by (simp add: round_even_def)

lemma round_even_cases: "round_even z = \<lfloor>z\<rfloor> \<or> round_even z = \<lfloor>z\<rfloor> + 1"
  by (simp add: round_even_def Let_def)

lemma round_even_le:
  assumes "z \<le> of_int N"
  shows "round_even z \<le> N"
proof (cases "z = of_int N")
  case True
  then show ?thesis by simp
next
  case False
  with assms have "z < of_int N" by simp
  then have "\<lfloor>z\<rfloor> < N" by (simp add: floor_less_iff)
  then show ?thesis using round_even_cases[of z] by linarith
qed

lemma round_even_ge:
  assumes "of_int N \<le> z"
  shows "N \<le> round_even z"
proof -
  have "N \<le> \<lfloor>z\<rfloor>" using assms by (simp add: le_floor_iff)
  then show ?thesis using round_even_cases[of z] by linarith
qed

lemma round_even_eqI:
  assumes "\<bar>z - of_int m\<bar> < 1 / 2 \<or> (\<bar>z - of_int m\<bar> = 1 / 2 \<and> even m)"
  shows "round_even z = m"
proof (cases "of_int m \<le> z")
  case True
  then have fl: "\<lfloor>z\<rfloor> = m" using assms by (intro floor_unique) (auto simp: abs_if split: if_splits)
  show ?thesis using assms True by (auto simp: round_even_def fl Let_def abs_if split: if_splits)
next
  case False
  then have fl: "\<lfloor>z\<rfloor> = m - 1" using assms by (intro floor_unique) (auto simp: abs_if split: if_splits)
  show ?thesis using assms False by (auto simp: round_even_def fl Let_def abs_if split: if_splits)
qed

text \<open>
  Exact results are kept: multiples of the spacing, and the integers below \<open>2 ^ 53\<close>.
  Rounding keeps an integer bound, the sign, and stays below a double that bounds the
  exact value.
\<close>

lemma rnd_exact:
  assumes "q = of_int m * ulp q" "\<bar>q\<bar> < 2 ^ 1024"
  shows "rnd q = Fin q"
proof (cases "q = 0")
  case True
  then show ?thesis by (simp add: rnd_def)
next
  case False
  have "q / ulp q = of_int m"
    using assms(1) ulp_pos[of q] by (metis less_irrefl nonzero_mult_div_cancel_right)
  then have r: "of_int (round_even (q / ulp q)) * ulp q = q"
    using assms(1) by simp
  have "\<not> 2 ^ 1024 \<le> q" "\<not> q \<le> - (2 ^ 1024)"
    using assms(2) by linarith+
  then show ?thesis
    using False by (simp add: rnd_def r Let_def)
qed

lemma ulp_small:
  assumes "q \<noteq> 0" "\<bar>q\<bar> < 2 ^ 53"
  shows "\<exists>j. ulp q * 2 ^ j = 1"
proof -
  have "\<bar>q\<bar> < 2 powi 53" using assms(2) by simp
  then have "ilog2 q < 53" using ilog2_less[OF assms(1)] by blast
  then have e: "max (ilog2 q - 52) (- 1074) \<le> 0" by simp
  define j where "j = nat (- max (ilog2 q - 52) (- 1074))"
  have "ulp q = 2 powi (- int j)"
    using e by (simp add: ulp_def j_def)
  then have "ulp q * 2 ^ j = 1"
    by (simp add: power_int_minus)
  then show ?thesis by blast
qed

lemma rnd_int:
  assumes "\<bar>n\<bar> < 2 ^ 53"
  shows "rnd (of_int n) = Fin (of_int n)"
proof (cases "n = 0")
  case True
  then show ?thesis by (simp add: rnd_def)
next
  case False
  let ?q = "of_int n :: rat"
  have q0: "?q \<noteq> 0" using False by simp
  have "\<bar>?q\<bar> = of_int \<bar>n\<bar>" by simp
  also have "\<dots> < of_int (2 ^ 53)" using assms by (simp only: of_int_less_iff)
  finally have lt: "\<bar>?q\<bar> < 2 ^ 53" by simp
  obtain j where j: "ulp ?q * 2 ^ j = 1" using ulp_small[OF q0 lt] by blast
  have "?q = ?q * (2 ^ j * ulp ?q)" using j by (simp add: mult.commute)
  also have "\<dots> = of_int (n * 2 ^ j) * ulp ?q" by simp
  finally have ex: "?q = of_int (n * 2 ^ j) * ulp ?q" .
  have "\<bar>?q\<bar> < 2 ^ 1024" using lt by simp
  with ex show ?thesis by (rule rnd_exact)
qed

lemma rnd_bounded:
  assumes "\<bar>q\<bar> \<le> of_int N" "N < 2 ^ 53"
  shows "\<exists>r. rnd q = Fin r \<and> \<bar>r\<bar> \<le> of_int N"
proof (cases "q = 0")
  case True
  then show ?thesis using assms(1) by (simp add: rnd_def)
next
  case False
  have "of_int N < (of_int (2 ^ 53) :: rat)" using assms(2) by (simp only: of_int_less_iff)
  then have lt: "\<bar>q\<bar> < 2 ^ 53" using assms(1) by simp
  obtain j where j: "ulp q * 2 ^ j = 1" using ulp_small[OF False lt] by blast
  define z where "z = q / ulp q"
  define r where "r = of_int (round_even z) * ulp q"
  have u0: "ulp q \<noteq> 0" using ulp_pos[of q] by linarith
  have "z = (q / ulp q) * (ulp q * 2 ^ j)" using j by (simp add: z_def)
  also have "\<dots> = q * 2 ^ j" using u0 by simp
  finally have zq: "z = q * 2 ^ j" .
  have "\<bar>z\<bar> \<le> of_int N * 2 ^ j"
    unfolding zq using assms(1) by (simp add: abs_mult mult_right_mono)
  then have "z \<le> of_int (N * 2 ^ j)" "of_int (- (N * 2 ^ j)) \<le> z"
    by simp_all
  then have "round_even z \<le> N * 2 ^ j" "- (N * 2 ^ j) \<le> round_even z"
    using round_even_le[of z "N * 2 ^ j"] round_even_ge[of "- (N * 2 ^ j)" z] by blast+
  then have "\<bar>round_even z\<bar> \<le> N * 2 ^ j" by simp
  then have le: "(of_int \<bar>round_even z\<bar> :: rat) \<le> of_int (N * 2 ^ j)"
    by (simp only: of_int_le_iff)
  have au: "\<bar>ulp q\<bar> = ulp q" by (simp add: abs_of_pos)
  have "\<bar>r\<bar> = of_int \<bar>round_even z\<bar> * ulp q"
    by (simp add: r_def abs_mult au)
  also have "\<dots> \<le> of_int (N * 2 ^ j) * ulp q"
    using le by (rule mult_right_mono) (simp add: less_imp_le)
  also have "\<dots> = of_int N * (ulp q * 2 ^ j)" by simp
  finally have rb: "\<bar>r\<bar> \<le> of_int N" using j by simp
  then have "\<bar>r\<bar> < 2 ^ 53" using \<open>of_int N < (of_int (2 ^ 53) :: rat)\<close> by simp
  then have "\<bar>r\<bar> < 2 ^ 1024" by simp
  then have "\<not> 2 ^ 1024 \<le> r" "\<not> r \<le> - (2 ^ 1024)" by linarith+
  then have "rnd q = Fin r"
    using False by (simp add: rnd_def r_def z_def Let_def)
  with rb show ?thesis by blast
qed

lemma rnd_0 [simp]: "rnd 0 = Fin 0"
  by (simp add: rnd_def)

lemma rnd_numeral [simp]: "(numeral w :: int) < 2 ^ 53 \<Longrightarrow> rnd (numeral w) = Fin (numeral w)"
  using rnd_int[of "numeral w"] by simp

lemma rnd_neg_numeral [simp]: "(numeral w :: int) < 2 ^ 53 \<Longrightarrow> rnd (- numeral w) = Fin (- numeral w)"
  using rnd_int[of "- numeral w"] by simp

lemma rnd_1 [simp]: "rnd 1 = Fin 1"
  using rnd_int[of 1] by simp

lemma rnd_nonneg:
  assumes "0 \<le> q"
  shows "rnd q = PosInf \<or> (\<exists>r. rnd q = Fin r \<and> 0 \<le> r)"
proof (cases "q = 0")
  case True
  then show ?thesis by simp
next
  case False
  have "0 \<le> q / ulp q" using assms ulp_pos[of q] by (rule divide_nonneg_pos)
  then have "of_int 0 \<le> q / ulp q" by simp
  then have "0 \<le> round_even (q / ulp q)" by (rule round_even_ge)
  then have "0 \<le> of_int (round_even (q / ulp q)) * ulp q"
    using ulp_pos[of q] by (simp add: less_imp_le)
  moreover have "(0::rat) < 2 ^ 1024" by simp
  ultimately have "\<not> of_int (round_even (q / ulp q)) * ulp q \<le> - (2 ^ 1024)"
    by linarith
  then show ?thesis
    using False \<open>0 \<le> of_int (round_even (q / ulp q)) * ulp q\<close>
    by (simp only: rnd_def Let_def if_False) auto
qed

lemma is_double_multiple:
  assumes "is_double x"
  shows "\<exists>m. x = of_int m * ulp x"
proof (cases "x = 0")
  case True
  then have "x = of_int 0 * ulp x" by simp
  then show ?thesis by blast
next
  case False
  with assms have "of_int (round_even (x / ulp x)) * ulp x = x"
    by (simp add: is_double_def rnd_def Let_def split: if_splits)
  then show ?thesis by metis
qed

lemma is_double_less:
  assumes "is_double x"
  shows "x < 2 ^ 1024"
proof (cases "x = 0")
  case True
  then show ?thesis by simp
next
  case False
  with assms have "of_int (round_even (x / ulp x)) * ulp x = x"
    and "\<not> 2 ^ 1024 \<le> of_int (round_even (x / ulp x)) * ulp x"
    by (simp_all add: is_double_def rnd_def Let_def split: if_splits)
  then show ?thesis by simp
qed

lemma rnd_le_double:
  assumes "0 < a" "a \<le> x" "is_double x"
  shows "\<exists>r. rnd a = Fin r \<and> 0 \<le> r \<and> r \<le> x"
proof -
  obtain m where m: "x = of_int m * ulp x" using is_double_multiple[OF assms(3)] by blast
  define ea where "ea = max (ilog2 a - 52) (- 1074)"
  define ex where "ex = max (ilog2 x - 52) (- 1074)"
  have "ilog2 a \<le> ilog2 x" using assms(1,2) by (rule ilog2_mono)
  then have le: "ea \<le> ex" by (simp add: ea_def ex_def)
  define j where "j = nat (ex - ea)"
  have "ex = ea + int j" using le by (simp add: j_def)
  then have "(2::rat) powi ex = 2 powi ea * 2 powi (int j)"
    by (simp add: power_int_add)
  then have ux: "ulp x = ulp a * 2 ^ j"
    by (simp add: ulp_def ea_def ex_def)
  have x: "x = of_int (m * 2 ^ j) * ulp a"
    by (subst m) (simp add: ux)
  define z where "z = a / ulp a"
  have ua: "0 < ulp a" by simp
  have "a \<le> of_int (m * 2 ^ j) * ulp a" using assms(2) x by simp
  then have "z \<le> of_int (m * 2 ^ j)"
    unfolding z_def using ua by (simp only: pos_divide_le_eq)
  then have up: "round_even z \<le> m * 2 ^ j" by (rule round_even_le)
  have "0 \<le> z" unfolding z_def using assms(1) ua by (simp add: less_imp_le)
  then have "of_int 0 \<le> z" by simp
  then have lo: "0 \<le> round_even z" by (rule round_even_ge)
  define r where "r = of_int (round_even z) * ulp a"
  have r0: "0 \<le> r" unfolding r_def using lo ua by (simp add: less_imp_le)
  have "(of_int (round_even z) :: rat) \<le> of_int (m * 2 ^ j)"
    using up by (simp only: of_int_le_iff)
  then have "r \<le> of_int (m * 2 ^ j) * ulp a"
    unfolding r_def using ua by (intro mult_right_mono) (simp_all add: less_imp_le)
  then have rx: "r \<le> x" using x by simp
  have "x < 2 ^ 1024" using assms(3) by (rule is_double_less)
  then have n1: "\<not> 2 ^ 1024 \<le> r" using rx by linarith
  have "(0::rat) < 2 ^ 1024" by simp
  then have n2: "\<not> r \<le> - (2 ^ 1024)" using r0 by linarith
  have a0: "a \<noteq> 0" using assms(1) by simp
  have "rnd a = Fin r"
    unfolding rnd_def Let_def z_def[symmetric] r_def[symmetric] by (simp only: a0 n1 n2 if_False)
  then show ?thesis using r0 rx by blast
qed

text \<open>
  Evaluation of \<open>rnd\<close> at a given rational, from its binary exponent \<open>k\<close> and the
  rounded mantissa \<open>m\<close>.
\<close>

lemma rnd_eval:
  assumes "2 powi k \<le> \<bar>q\<bar>" "\<bar>q\<bar> < 2 powi (k + 1)"
    and "\<bar>q / 2 powi (max (k - 52) (- 1074)) - of_int m\<bar> < 1 / 2 \<or>
         (\<bar>q / 2 powi (max (k - 52) (- 1074)) - of_int m\<bar> = 1 / 2 \<and> even m)"
    and "r = of_int m * 2 powi (max (k - 52) (- 1074))"
    and "\<bar>r\<bar> < 2 ^ 1024"
  shows "rnd q = Fin r"
proof -
  have "0 < \<bar>q\<bar>" using assms(1) two_powi_pos[of k] by linarith
  then have q: "q \<noteq> 0" by simp
  have u: "ulp q = 2 powi (max (k - 52) (- 1074))"
    by (simp add: ulp_def ilog2_eq[OF assms(1,2)])
  have m: "round_even (q / 2 powi (max (k - 52) (- 1074))) = m"
    using assms(3) by (rule round_even_eqI)
  have R: "of_int (round_even (q / ulp q)) * ulp q = r"
    by (simp only: u m assms(4))
  have n1: "\<not> 2 ^ 1024 \<le> r" and n2: "\<not> r \<le> - (2 ^ 1024)"
    using assms(5) by linarith+
  show ?thesis
    unfolding rnd_def Let_def R by (simp only: q n1 n2 if_False)
qed

lemma rnd_overflow:
  assumes "2 powi k \<le> \<bar>q\<bar>" "\<bar>q\<bar> < 2 powi (k + 1)"
    and "\<bar>q / 2 powi (max (k - 52) (- 1074)) - of_int m\<bar> < 1 / 2 \<or>
         (\<bar>q / 2 powi (max (k - 52) (- 1074)) - of_int m\<bar> = 1 / 2 \<and> even m)"
    and "2 ^ 1024 \<le> (of_int m :: rat) * 2 powi (max (k - 52) (- 1074))"
  shows "rnd q = PosInf"
proof -
  have "0 < \<bar>q\<bar>" using assms(1) two_powi_pos[of k] by linarith
  then have q: "q \<noteq> 0" by simp
  have u: "ulp q = 2 powi (max (k - 52) (- 1074))"
    by (simp add: ulp_def ilog2_eq[OF assms(1,2)])
  have m: "round_even (q / 2 powi (max (k - 52) (- 1074))) = m"
    using assms(3) by (rule round_even_eqI)
  have R: "of_int (round_even (q / ulp q)) * ulp q = of_int m * 2 powi (max (k - 52) (- 1074))"
    by (simp only: u m)
  show ?thesis
    unfolding rnd_def Let_def R by (simp only: q assms(4) if_False if_True)
qed

text \<open>
  The rounding at familiar values: 0.1 and 1/3, the largest double, a tie between two
  subnormals, and the least value that overflows.
\<close>

lemma double_0_1: "rnd (1 / 10) = Fin (3602879701896397 / 36028797018963968)"
  by (rule rnd_eval [where k = "- 4" and m = 7205759403792794]) simp_all

lemma double_1_3: "rnd (1 / 3) = Fin (6004799503160661 / 18014398509481984)"
  by (rule rnd_eval [where k = "- 2" and m = 6004799503160661]) simp_all

lemma double_max: "rnd (179769313486231570814527423731704356798070567525844996598917476803157260780028538760589558632766878171540458953514382464234321326889464182768467546703537516986049910576551282076245490090389328944075868508455133942304583236903222948165808559332123348274797826204144723168738177180919299881250404026184124858368) = Fin (179769313486231570814527423731704356798070567525844996598917476803157260780028538760589558632766878171540458953514382464234321326889464182768467546703537516986049910576551282076245490090389328944075868508455133942304583236903222948165808559332123348274797826204144723168738177180919299881250404026184124858368)"
  by (rule rnd_eval [where k = 1023 and m = 9007199254740991]) simp_all

lemma double_subnormal_tie: "rnd (3 / 404804506614621236704990693437834614099113299528284236713802716054860679135990693783920767402874248990374155728633623822779617474771586953734026799881477019843034848553132722728933815484186432682479535356945490137124014966849385397236206711298319112681620113024717539104666829230461005064372655017292012526615415482186989568) = Fin (1 / 101201126653655309176247673359458653524778324882071059178450679013715169783997673445980191850718562247593538932158405955694904368692896738433506699970369254960758712138283180682233453871046608170619883839236372534281003741712346349309051677824579778170405028256179384776166707307615251266093163754323003131653853870546747392)"
  by (rule rnd_eval [where k = "- 1074" and m = 2]) simp_all

lemma double_overflow: "rnd (179769313486231580793728971405303415079934132710037826936173778980444968292764750946649017977587207096330286416692887910946555547851940402630657488671505820681908902000708383676273854845817711531764475730270069855571366959622842914819860834936475292719074168444365510704342711559699508093042880177904174497792) = PosInf"
  by (rule rnd_overflow [where k = 1023 and m = 9007199254740992]) simp_all

text \<open>Floors.\<close>

lemma floor_add_half [simp]: "\<lfloor>(of_int k :: rat) + 1 / 2\<rfloor> = k"
  by (rule floor_unique) simp_all

lemma floor_numeral_add_half [simp]: "\<lfloor>(numeral w :: rat) + 1 / 2\<rfloor> = numeral w"
  using floor_add_half[of "numeral w"] by simp

lemma floor_numeral_div [simp]: "\<lfloor>(numeral a :: rat) / numeral b\<rfloor> = numeral a div numeral b"
  using floor_divide_of_int_eq[of "numeral a" "numeral b", where ?'a = rat] by simp

lemma not_int_between:
  assumes "of_int n < (q::rat)" "q < of_int n + 1"
  shows "q \<notin> \<int>"
proof
  assume "q \<in> \<int>"
  then obtain k where "q = of_int k" by (auto elim: Ints_cases)
  with assms have "(of_int n :: rat) < of_int k" "(of_int k :: rat) < of_int (n + 1)"
    by simp_all
  then have "n < k" "k < n + 1" by (simp_all only: of_int_less_iff)
  then show False by simp
qed

section \<open>roundToNearest5\<close>

lemma roundToNearest5_at_10092_5: "roundToNearest5 (Fin (20185 / 2)) = Fin (10095)"
proof -
  have d: "rnd (20185 / 2 / 5) = Fin (4037 / 2)"
    by (rule rnd_eval [where k = 10 and m = 8877456882663424]) simp_all
  have f: "\<lfloor>(4037 / 2 :: rat) + 1 / 2\<rfloor> = 2019"
    by (rule floor_unique) simp_all
  have m: "rnd (rat_of_int 2019 * 5) = Fin (10095)"
    by (rule rnd_eval [where k = 13 and m = 5549784941199360]) simp_all
  show ?thesis
    unfolding roundToNearest5_def fdiv.simps d Math_round.simps f fmul.simps m ..
qed

lemma roundToNearest5_at_10093: "roundToNearest5 (Fin (10093)) = Fin (10095)"
proof -
  have d: "rnd (10093 / 5) = Fin (4438948343657267 / 2199023255552)"
    by (rule rnd_eval [where k = 10 and m = 8877896687314534]) simp_all
  have f: "\<lfloor>(4438948343657267 / 2199023255552 :: rat) + 1 / 2\<rfloor> = 2019"
    by (rule floor_unique) simp_all
  have m: "rnd (rat_of_int 2019 * 5) = Fin (10095)"
    by (rule rnd_eval [where k = 13 and m = 5549784941199360]) simp_all
  show ?thesis
    unfolding roundToNearest5_def fdiv.simps d Math_round.simps f fmul.simps m ..
qed

lemma roundToNearest5_at_10092: "roundToNearest5 (Fin (10092)) = Fin (10090)"
proof -
  have d: "rnd (10092 / 5) = Fin (4438508539006157 / 2199023255552)"
    by (rule rnd_eval [where k = 10 and m = 8877017078012314]) simp_all
  have f: "\<lfloor>(4438508539006157 / 2199023255552 :: rat) + 1 / 2\<rfloor> = 2018"
    by (rule floor_unique) simp_all
  have m: "rnd (rat_of_int 2018 * 5) = Fin (10090)"
    by (rule rnd_eval [where k = 13 and m = 5547036162129920]) simp_all
  show ?thesis
    unfolding roundToNearest5_def fdiv.simps d Math_round.simps f fmul.simps m ..
qed

lemma roundToNearest5_at_neg_12_5: "roundToNearest5 (Fin (- 25 / 2)) = Fin (- 10)"
proof -
  have d: "rnd (- 25 / 2 / 5) = Fin (- 5 / 2)"
    by (rule rnd_eval [where k = 1 and m = "- 5629499534213120"]) simp_all
  have f: "\<lfloor>(- 5 / 2 :: rat) + 1 / 2\<rfloor> = (- 2)"
    by (rule floor_unique) simp_all
  have m: "rnd (rat_of_int (- 2) * 5) = Fin (- 10)"
    by (rule rnd_eval [where k = 3 and m = "- 5629499534213120"]) simp_all
  show ?thesis
    unfolding roundToNearest5_def fdiv.simps d Math_round.simps f fmul.simps m ..
qed

lemma div_10093_5: "rnd (10093 / 5) = Fin (4438948343657267 / 2199023255552)"
  by (rule rnd_eval [where k = 10 and m = 8877896687314534]) simp_all

lemma double_neg_12_5: "rnd (- 25 / 2) = Fin (- 25 / 2)"
  by (rule rnd_eval [where k = 3 and m = "- 7036874417766400"]) simp_all

lemma div_neg_12_5_5: "rnd (- 25 / 2 / 5) = Fin (- 5 / 2)"
  by (rule rnd_eval [where k = 1 and m = "- 5629499534213120"]) simp_all

lemma round_half_away_off_half:
  assumes "q + 1 / 2 \<notin> \<int>"
  shows "round_half_away (Fin q) = Math_round (Fin q)"
proof (cases "0 \<le> q")
  case True
  then show ?thesis by simp
next
  case False
  define n where "n = \<lfloor>q + 1 / 2\<rfloor>"
  have "of_int n \<noteq> q + 1 / 2" using assms by (metis Ints_of_int)
  moreover have "of_int n \<le> q + 1 / 2" "q + 1 / 2 < of_int n + 1"
    unfolding n_def by linarith+
  ultimately have "of_int (- n) \<le> - q + 1 / 2" "- q + 1 / 2 < of_int (- n) + 1"
    by simp_all
  then have "\<lfloor>- q + 1 / 2\<rfloor> = - n" by (rule floor_unique)
  then show ?thesis using False by (simp add: n_def)
qed

text \<open>
  C5, as amended: \<open>roundToNearest5 x\<close> is \<^verbatim>\<open>Math.round(x / 5) * 5\<close>, where
  \<^verbatim>\<open>Math.round\<close> gives the integer \<open>n\<close> with \<open>n - 1/2 \<le> q < n + 1/2\<close>: a half is rounded
  up, towards \<open>+\<infinity>\<close>. It agrees with rounding half away from zero for every
  \<open>x \<ge> 0\<close> and whenever the quotient is off the \<open>.5\<close> boundary; for a negative
  quotient \<open>m + 1/2\<close> on the boundary it gives \<open>(m + 1) * 5\<close>, towards zero, where
  rounding away from zero gives \<open>m * 5\<close>. In particular 10092.5, 10093 and 10092 round
  to 10095, 10095 and 10090.
\<close>

theorem roundToNearest5_rounds_half_up:
  "(fdiv (Fin x) 5 = Fin q \<and> of_int n - 1 / 2 \<le> q \<and> q < of_int n + 1 / 2 \<longrightarrow>
      roundToNearest5 (Fin x) = fmul (Fin (of_int n)) (Fin 5)) \<and>
   (0 \<le> x \<longrightarrow> roundToNearest5 (Fin x) = spec_roundToNearest5 (Fin x)) \<and>
   (fdiv (Fin x) 5 = Fin q \<and> q + 1 / 2 \<notin> \<int> \<longrightarrow>
      roundToNearest5 (Fin x) = spec_roundToNearest5 (Fin x)) \<and>
   (fdiv (Fin x) 5 = Fin q \<and> q < 0 \<and> q = of_int m + 1 / 2 \<longrightarrow>
      roundToNearest5 (Fin x) = fmul (Fin (of_int (m + 1))) (Fin 5) \<and>
      spec_roundToNearest5 (Fin x) = fmul (Fin (of_int m)) (Fin 5)) \<and>
   roundToNearest5 (Fin (20185 / 2)) = Fin 10095 \<and>
   roundToNearest5 (Fin 10093) = Fin 10095 \<and>
   roundToNearest5 (Fin 10092) = Fin 10090"
proof (intro conjI impI)
  assume a: "fdiv (Fin x) 5 = Fin q \<and> of_int n - 1 / 2 \<le> q \<and> q < of_int n + 1 / 2"
  then have "\<lfloor>q + 1 / 2\<rfloor> = n" by (intro floor_unique) simp_all
  then show "roundToNearest5 (Fin x) = fmul (Fin (of_int n)) (Fin 5)"
    using a by (simp add: roundToNearest5_def)
next
  assume "0 \<le> x"
  then have "0 \<le> x / 5" by simp
  from rnd_nonneg[OF this] show "roundToNearest5 (Fin x) = spec_roundToNearest5 (Fin x)"
    by (auto simp: roundToNearest5_def spec_roundToNearest5_def)
next
  assume a: "fdiv (Fin x) 5 = Fin q \<and> q + 1 / 2 \<notin> \<int>"
  then have "round_half_away (Fin q) = Math_round (Fin q)"
    using round_half_away_off_half[of q] by blast
  then show "roundToNearest5 (Fin x) = spec_roundToNearest5 (Fin x)"
    using a by (simp only: roundToNearest5_def spec_roundToNearest5_def)
next
  assume a: "fdiv (Fin x) 5 = Fin q \<and> q < 0 \<and> q = of_int m + 1 / 2"
  have "\<lfloor>(of_int m :: rat) + 1 / 2 + 1 / 2\<rfloor> = m + 1" by (rule floor_unique) simp_all
  then show "roundToNearest5 (Fin x) = fmul (Fin (of_int (m + 1))) (Fin 5)"
    using a by (simp add: roundToNearest5_def add.commute)
  show "spec_roundToNearest5 (Fin x) = fmul (Fin (of_int m)) (Fin 5)"
    using a by (simp add: spec_roundToNearest5_def)
next
  show "roundToNearest5 (Fin (20185 / 2)) = Fin 10095" by (rule roundToNearest5_at_10092_5)
  show "roundToNearest5 (Fin 10093) = Fin 10095" by (rule roundToNearest5_at_10093)
  show "roundToNearest5 (Fin 10092) = Fin 10090" by (rule roundToNearest5_at_10092)
qed

text \<open>
  C5, witness: the cases at 10093 (quotient 2018.6 as a double) and at -12.5 (quotient -2.5).
\<close>

theorem roundToNearest5_rounds_half_up_witness:
  "(fdiv (Fin 10093) 5 = Fin (4438948343657267 / 2199023255552) \<and>
      of_int 2019 - 1 / 2 \<le> (4438948343657267 / 2199023255552 :: rat) \<and> (4438948343657267 / 2199023255552 :: rat) < of_int 2019 + 1 / 2 \<and>
      roundToNearest5 (Fin 10093) = fmul (Fin (of_int 2019)) (Fin 5)) \<and>
   ((0::rat) \<le> 10093 \<and> roundToNearest5 (Fin 10093) = spec_roundToNearest5 (Fin 10093)) \<and>
   ((4438948343657267 / 2199023255552 :: rat) + 1 / 2 \<notin> \<int> \<and>
      roundToNearest5 (Fin 10093) = spec_roundToNearest5 (Fin 10093)) \<and>
   (fdiv (Fin (- 25 / 2)) 5 = Fin (- 5 / 2) \<and> (- 5 / 2 :: rat) < 0 \<and>
      (- 5 / 2 :: rat) = of_int (- 3) + 1 / 2 \<and>
      roundToNearest5 (Fin (- 25 / 2)) = fmul (Fin (of_int (- 3 + 1))) (Fin 5) \<and>
      spec_roundToNearest5 (Fin (- 25 / 2)) = fmul (Fin (of_int (- 3))) (Fin 5))"
proof -
  let ?y = "4438948343657267 / 2199023255552 :: rat"
  have d1: "fdiv (Fin 10093) 5 = Fin ?y"
    by (simp only: fdiv.simps div_10093_5)
  have b1: "of_int 2019 - 1 / 2 \<le> ?y" and b2: "?y < of_int 2019 + 1 / 2"
    by simp_all
  have ni: "?y + 1 / 2 \<notin> \<int>"
    by (rule not_int_between[where n = 2019]) simp_all
  have d2: "fdiv (Fin (- 25 / 2)) 5 = Fin (- 5 / 2)"
    by (simp only: fdiv.simps div_neg_12_5_5)
  have b3: "(- 5 / 2 :: rat) < 0" and b4: "(- 5 / 2 :: rat) = of_int (- 3) + 1 / 2"
    by simp_all
  note t1 = roundToNearest5_rounds_half_up[of 10093 ?y 2019 "- 3"]
  note t2 = roundToNearest5_rounds_half_up[of "- 25 / 2" "- 5 / 2" 2019 "- 3"]
  have a1: "roundToNearest5 (Fin 10093) = fmul (Fin (of_int 2019)) (Fin 5)"
    using t1 d1 b1 b2 by blast
  have a2: "roundToNearest5 (Fin 10093) = spec_roundToNearest5 (Fin 10093)"
    using t1 d1 ni by blast
  have a3: "roundToNearest5 (Fin (- 25 / 2)) = fmul (Fin (of_int (- 3 + 1))) (Fin 5)"
    and a4: "spec_roundToNearest5 (Fin (- 25 / 2)) = fmul (Fin (of_int (- 3))) (Fin 5)"
    using t2 d2 b3 b4 by blast+
  show ?thesis
    by (intro conjI d1 b1 b2 a1 a2 ni d2 b3 b4 a3 a4) simp
qed

text \<open>
  C5, counterexample: the claim as stated fails at \<open>x = -12.5\<close>: the quotient -2.5 is rounded to -2, so the
  result is -10, not -15.
\<close>

theorem roundToNearest5_negative_half_counterexample:
  "is_double (- 25 / 2) \<and>
   roundToNearest5 (Fin (- 25 / 2)) = Fin (- 10) \<and>
   spec_roundToNearest5 (Fin (- 25 / 2)) = Fin (- 15) \<and>
   roundToNearest5 (Fin (- 25 / 2)) \<noteq> spec_roundToNearest5 (Fin (- 25 / 2))"
proof -
  have s: "spec_roundToNearest5 (Fin (- 25 / 2)) = Fin (- 15)"
    unfolding spec_roundToNearest5_def fdiv.simps div_neg_12_5_5 by simp
  show ?thesis
    unfolding s roundToNearest5_at_neg_12_5 is_double_def double_neg_12_5 by simp
qed

lemma roundToNearest5_multiple:
  assumes "\<bar>k\<bar> \<le> 1801439850948198"
  shows "roundToNearest5 (Fin (of_int k * 5)) = Fin (of_int k * 5)"
proof -
  have "\<bar>k * 5\<bar> < 2 ^ 53" "\<bar>k\<bar> < 2 ^ 53" using assms by simp_all
  then have "rnd (of_int (k * 5)) = Fin (of_int (k * 5))" "rnd (of_int k) = Fin (of_int k)"
    by (simp_all only: rnd_int)
  then show ?thesis by (simp add: roundToNearest5_def)
qed

text \<open>
  C6, as amended: \<open>roundToNearest5\<close> is idempotent on every \<open>x\<close> with
  \<open>\<bar>x\<bar> \<le> 2 ^ 53 - 2\<close>: there every multiple of 5 in reach is a double and the
  division by 5 is exact.
\<close>

theorem roundToNearest5_idempotent:
  assumes "\<bar>x\<bar> \<le> 9007199254740990"
  shows "roundToNearest5 (roundToNearest5 (Fin x)) = roundToNearest5 (Fin x)"
proof -
  let ?N = "1801439850948198 :: int"
  have "\<bar>x / 5\<bar> \<le> of_int ?N" using assms by simp
  then obtain y where y: "rnd (x / 5) = Fin y" "\<bar>y\<bar> \<le> of_int ?N"
    using rnd_bounded[of "x / 5" ?N] by auto
  define k where "k = \<lfloor>y + 1 / 2\<rfloor>"
  have "y + 1 / 2 < of_int (?N + 1)" "of_int (- ?N) \<le> y + 1 / 2"
    using y(2) by simp_all
  then have "k < ?N + 1" "- ?N \<le> k"
    unfolding k_def by (simp_all only: floor_less_iff le_floor_iff)
  then have kb: "\<bar>k\<bar> \<le> ?N" by simp
  then have "\<bar>k * 5\<bar> < 2 ^ 53" by simp
  then have "rnd (of_int (k * 5)) = Fin (of_int (k * 5))" by (simp only: rnd_int)
  then have "roundToNearest5 (Fin x) = Fin (of_int k * 5)"
    by (simp add: roundToNearest5_def y(1) k_def)
  then show ?thesis
    using roundToNearest5_multiple[OF kb] by simp
qed

text \<open>
  C6, witness: at 10093 the first rounding gives 10095, which the second keeps.
\<close>

theorem roundToNearest5_idempotent_witness:
  "\<bar>10093 :: rat\<bar> \<le> 9007199254740990 \<and>
   roundToNearest5 (roundToNearest5 (Fin 10093)) = roundToNearest5 (Fin 10093) \<and>
   roundToNearest5 (Fin 10093) = Fin 10095"
  using roundToNearest5_idempotent[of 10093] by (simp add: roundToNearest5_at_10093)

lemma roundToNearest5_at_19435051369311748: "roundToNearest5 (Fin (19435051369311748)) = Fin (19435051369311752)"
proof -
  have d: "rnd (19435051369311748 / 5) = Fin (7774020547724699 / 2)"
    by (rule rnd_eval [where k = 51 and m = 7774020547724699]) simp_all
  have f: "\<lfloor>(7774020547724699 / 2 :: rat) + 1 / 2\<rfloor> = 3887010273862350"
    by (rule floor_unique) simp_all
  have m: "rnd (rat_of_int 3887010273862350 * 5) = Fin (19435051369311752)"
    by (rule rnd_eval [where k = 54 and m = 4858762842327938]) simp_all
  show ?thesis
    unfolding roundToNearest5_def fdiv.simps d Math_round.simps f fmul.simps m ..
qed

lemma roundToNearest5_at_19435051369311752: "roundToNearest5 (Fin (19435051369311752)) = Fin (19435051369311756)"
proof -
  have d: "rnd (19435051369311752 / 5) = Fin (7774020547724701 / 2)"
    by (rule rnd_eval [where k = 51 and m = 7774020547724701]) simp_all
  have f: "\<lfloor>(7774020547724701 / 2 :: rat) + 1 / 2\<rfloor> = 3887010273862351"
    by (rule floor_unique) simp_all
  have m: "rnd (rat_of_int 3887010273862351 * 5) = Fin (19435051369311756)"
    by (rule rnd_eval [where k = 54 and m = 4858762842327939]) simp_all
  show ?thesis
    unfolding roundToNearest5_def fdiv.simps d Math_round.simps f fmul.simps m ..
qed

lemma double_19435051369311748: "rnd (19435051369311748) = Fin (19435051369311748)"
  by (rule rnd_eval [where k = 54 and m = 4858762842327937]) simp_all

text \<open>
  C6, counterexample: the claim as stated fails for large doubles: at \<open>x = 19435051369311748\<close> (above
  \<open>2 ^ 54\<close>, where doubles are multiples of 4) the first rounding gives
  19435051369311752 and the second 19435051369311756.
\<close>

theorem roundToNearest5_idempotent_counterexample:
  "is_double 19435051369311748 \<and>
   roundToNearest5 (Fin 19435051369311748) = Fin 19435051369311752 \<and>
   roundToNearest5 (roundToNearest5 (Fin 19435051369311748)) = Fin 19435051369311756 \<and>
   roundToNearest5 (roundToNearest5 (Fin 19435051369311748)) \<noteq> roundToNearest5 (Fin 19435051369311748)"
  by (simp add: is_double_def double_19435051369311748 roundToNearest5_at_19435051369311748
      roundToNearest5_at_19435051369311752)

section \<open>truncateTo3Decimals\<close>

lemma truncateTo3Decimals_at_neg_1_1024: "truncateTo3Decimals (Fin (- 1 / 1024)) = Fin (- 1152921504606847 / 1152921504606846976)"
proof -
  have p: "rnd (- 1 / 1024 * 1000) = Fin (- 125 / 128)"
    by (rule rnd_eval [where k = "- 1" and m = "- 8796093022208000"]) simp_all
  have f: "\<lfloor>(- 125 / 128 :: rat)\<rfloor> = (- 1)"
    by (rule floor_unique) simp_all
  have t: "rnd (rat_of_int (- 1) / 1000) = Fin (- 1152921504606847 / 1152921504606846976)"
    by (rule rnd_eval [where k = "- 10" and m = "- 4611686018427388"]) simp_all
  show ?thesis
    unfolding truncateTo3Decimals_def fmul.simps p Math_floor.simps f fdiv.simps t ..
qed

lemma lit_neg_0_001: "rnd (- 1 / 1000) = Fin (- 1152921504606847 / 1152921504606846976)"
  by (rule rnd_eval [where k = "- 10" and m = "- 4611686018427388"]) simp_all

text \<open>
  C7, as amended: \<open>truncateTo3Decimals x\<close> is \<^verbatim>\<open>Math.floor(x * 1000) / 1000\<close> in double
  arithmetic: with \<open>p\<close> the double product, the result is the double nearest to
  \<open>n / 1000\<close> for the integer \<open>n\<close> with \<open>n \<le> p < n + 1\<close>, the floor towards
  \<open>-\<infinity>\<close> (at \<open>-1/1024\<close> it gives \<open>-0.001\<close>, not 0). For \<open>x \<ge> 0\<close> the result is
  not negative, and it is at most \<open>x\<close> whenever the product \<open>x * 1000\<close> is exact.
\<close>

theorem truncateTo3Decimals_floor:
  "(fmul (Fin x) (Fin 1000) = Fin p \<longrightarrow>
      truncateTo3Decimals (Fin x) = rnd (of_int \<lfloor>p\<rfloor> / 1000) \<and>
      of_int \<lfloor>p\<rfloor> \<le> p \<and> p < of_int \<lfloor>p\<rfloor> + 1) \<and>
   (0 \<le> x \<longrightarrow>
      truncateTo3Decimals (Fin x) = PosInf \<or> (\<exists>t. truncateTo3Decimals (Fin x) = Fin t \<and> 0 \<le> t)) \<and>
   (0 \<le> x \<and> is_double x \<and> fmul (Fin x) (Fin 1000) = Fin (x * 1000) \<longrightarrow>
      (\<exists>t. truncateTo3Decimals (Fin x) = Fin t \<and> t \<le> x)) \<and>
   truncateTo3Decimals (Fin (- 1 / 1024)) = rnd (- 1 / 1000)"
proof (intro conjI impI)
  assume "fmul (Fin x) (Fin 1000) = Fin p"
  then show "truncateTo3Decimals (Fin x) = rnd (of_int \<lfloor>p\<rfloor> / 1000)"
    by (simp add: truncateTo3Decimals_def)
  show "of_int \<lfloor>p\<rfloor> \<le> p" "p < of_int \<lfloor>p\<rfloor> + 1" by linarith+
next
  assume x: "0 \<le> x"
  then have "0 \<le> x * 1000" by simp
  from rnd_nonneg[OF this]
  show "truncateTo3Decimals (Fin x) = PosInf \<or> (\<exists>t. truncateTo3Decimals (Fin x) = Fin t \<and> 0 \<le> t)"
  proof
    assume "rnd (x * 1000) = PosInf"
    then show ?thesis by (simp add: truncateTo3Decimals_def)
  next
    assume "\<exists>r. rnd (x * 1000) = Fin r \<and> 0 \<le> r"
    then obtain r where r: "rnd (x * 1000) = Fin r" "0 \<le> r" by blast
    then have "0 \<le> (of_int \<lfloor>r\<rfloor> :: rat) / 1000" by simp
    from rnd_nonneg[OF this] r(1) show ?thesis
      by (simp add: truncateTo3Decimals_def)
  qed
next
  assume a: "0 \<le> x \<and> is_double x \<and> fmul (Fin x) (Fin 1000) = Fin (x * 1000)"
  define n where "n = \<lfloor>x * 1000\<rfloor>"
  have t: "truncateTo3Decimals (Fin x) = rnd (of_int n / 1000)"
    using a by (simp add: truncateTo3Decimals_def n_def)
  have "of_int n \<le> x * 1000" unfolding n_def by linarith
  then have le: "of_int n / 1000 \<le> x" by simp
  have "0 \<le> n" unfolding n_def using a by simp
  show "\<exists>t. truncateTo3Decimals (Fin x) = Fin t \<and> t \<le> x"
  proof (cases "n = 0")
    case True
    then show ?thesis using t a by simp
  next
    case False
    with \<open>0 \<le> n\<close> have "(0::rat) < of_int n / 1000" by simp
    from rnd_le_double[OF this le] a obtain r where "rnd (of_int n / 1000) = Fin r" "r \<le> x"
      by blast
    then show ?thesis using t by simp
  qed
next
  show "truncateTo3Decimals (Fin (- 1 / 1024)) = rnd (- 1 / 1000)"
    unfolding truncateTo3Decimals_at_neg_1_1024 lit_neg_0_001 ..
qed

lemma truncateTo3Decimals_at_10_96875: "truncateTo3Decimals (Fin (351 / 32)) = Fin (3087217544562475 / 281474976710656)"
proof -
  have p: "rnd (351 / 32 * 1000) = Fin (43875 / 4)"
    by (rule rnd_eval [where k = 13 and m = 6030134083584000]) simp_all
  have f: "\<lfloor>(43875 / 4 :: rat)\<rfloor> = 10968"
    by (rule floor_unique) simp_all
  have t: "rnd (rat_of_int 10968 / 1000) = Fin (3087217544562475 / 281474976710656)"
    by (rule rnd_eval [where k = 3 and m = 6174435089124950]) simp_all
  show ?thesis
    unfolding truncateTo3Decimals_def fmul.simps p Math_floor.simps f fdiv.simps t ..
qed

lemma double_10_96875: "rnd (351 / 32) = Fin (351 / 32)"
  by (rule rnd_eval [where k = 3 and m = 6174857301590016]) simp_all

lemma mul_10_96875_1000: "rnd (351 / 32 * 1000) = Fin (43875 / 4)"
  by (rule rnd_eval [where k = 13 and m = 6030134083584000]) simp_all

text \<open>
  C7, witness: at \<open>x = 10.96875\<close> the product 10968.75 is exact and the result is the double 10.968.
\<close>

theorem truncateTo3Decimals_floor_witness:
  "(fmul (Fin (351 / 32)) (Fin 1000) = Fin (43875 / 4) \<and>
      truncateTo3Decimals (Fin (351 / 32)) = rnd (of_int \<lfloor>43875 / 4 :: rat\<rfloor> / 1000)) \<and>
   ((0::rat) \<le> 351 / 32 \<and> is_double (351 / 32) \<and>
      fmul (Fin (351 / 32)) (Fin 1000) = Fin (351 / 32 * 1000) \<and>
      truncateTo3Decimals (Fin (351 / 32)) = Fin (3087217544562475 / 281474976710656) \<and> (0 :: rat) \<le> 3087217544562475 / 281474976710656 \<and>
      (3087217544562475 / 281474976710656 :: rat) \<le> 351 / 32)"
proof -
  have p: "fmul (Fin (351 / 32)) (Fin 1000) = Fin (43875 / 4)"
    unfolding fmul.simps mul_10_96875_1000 ..
  have p': "fmul (Fin (351 / 32)) (Fin 1000) = Fin (351 / 32 * 1000)"
    unfolding p by simp
  have d: "is_double (351 / 32)"
    unfolding is_double_def by (rule double_10_96875)
  have x0: "(0::rat) \<le> 351 / 32" by simp
  have a1: "truncateTo3Decimals (Fin (351 / 32)) = rnd (of_int \<lfloor>43875 / 4 :: rat\<rfloor> / 1000)"
    using truncateTo3Decimals_floor[of "351 / 32" "43875 / 4"] p by blast
  have "\<exists>t. truncateTo3Decimals (Fin (351 / 32)) = Fin t \<and> t \<le> 351 / 32"
    using truncateTo3Decimals_floor[of "351 / 32" "43875 / 4"] x0 d p' by blast
  then have a2: "(3087217544562475 / 281474976710656 :: rat) \<le> 351 / 32"
    unfolding truncateTo3Decimals_at_10_96875 by simp
  have a3: "(0 :: rat) \<le> 3087217544562475 / 281474976710656" by simp
  show ?thesis
    by (intro conjI p a1 x0 d p' truncateTo3Decimals_at_10_96875 a2 a3)
qed

lemma truncateTo3Decimals_at_2_007: "truncateTo3Decimals (Fin (4519362226066293 / 2251799813685248)) = Fin (4519362226066293 / 2251799813685248)"
proof -
  have p: "rnd (4519362226066293 / 2251799813685248 * 1000) = Fin (8826879347785729 / 4398046511104)"
    by (rule rnd_eval [where k = 10 and m = 8826879347785729]) simp_all
  have f: "\<lfloor>(8826879347785729 / 4398046511104 :: rat)\<rfloor> = 2007"
    by (rule floor_unique) simp_all
  have t: "rnd (rat_of_int 2007 / 1000) = Fin (4519362226066293 / 2251799813685248)"
    by (rule rnd_eval [where k = 1 and m = 4519362226066293]) simp_all
  show ?thesis
    unfolding truncateTo3Decimals_def fmul.simps p Math_floor.simps f fdiv.simps t ..
qed

lemma truncateTo3Decimals_at_0_117_below: "truncateTo3Decimals (Fin (131730289100587 / 1125899906842624)) = Fin (8430738502437569 / 72057594037927936)"
proof -
  have p: "rnd (131730289100587 / 1125899906842624 * 1000) = Fin (117)"
    by (rule rnd_eval [where k = 6 and m = 8233143068786688]) simp_all
  have f: "\<lfloor>(117 :: rat)\<rfloor> = 117"
    by (rule floor_unique) simp_all
  have t: "rnd (rat_of_int 117 / 1000) = Fin (8430738502437569 / 72057594037927936)"
    by (rule rnd_eval [where k = "- 4" and m = 8430738502437569]) simp_all
  show ?thesis
    unfolding truncateTo3Decimals_def fmul.simps p Math_floor.simps f fdiv.simps t ..
qed

lemma double_2_007: "rnd (4519362226066293 / 2251799813685248) = Fin (4519362226066293 / 2251799813685248)"
  by (rule rnd_eval [where k = 1 and m = 4519362226066293]) simp_all

lemma double_0_117_below: "rnd (131730289100587 / 1125899906842624) = Fin (131730289100587 / 1125899906842624)"
  by (rule rnd_eval [where k = "- 4" and m = 8430738502437568]) simp_all

lemma mul_2_007_1000: "rnd (4519362226066293 / 2251799813685248 * 1000) = Fin (8826879347785729 / 4398046511104)"
  by (rule rnd_eval [where k = 10 and m = 8826879347785729]) simp_all

text \<open>
  C7, counterexample: the claim as stated fails in double arithmetic. At the double just below 0.117 the
  product rounds up to 117 and the result, the double 0.117, exceeds \<open>x\<close>; at the double
  2.007 the result is 2.007 itself and its product with 1000 is 2007.0000000000002, not
  an integer.
\<close>

theorem truncateTo3Decimals_rounding_counterexample:
  "is_double (131730289100587 / 1125899906842624) \<and> (0::rat) \<le> 131730289100587 / 1125899906842624 \<and>
   truncateTo3Decimals (Fin (131730289100587 / 1125899906842624)) = Fin (8430738502437569 / 72057594037927936) \<and>
   \<not> (8430738502437569 / 72057594037927936 :: rat) \<le> 131730289100587 / 1125899906842624 \<and>
   is_double (4519362226066293 / 2251799813685248) \<and>
   truncateTo3Decimals (Fin (4519362226066293 / 2251799813685248)) = Fin (4519362226066293 / 2251799813685248) \<and>
   fmul (truncateTo3Decimals (Fin (4519362226066293 / 2251799813685248))) (Fin 1000) = Fin (8826879347785729 / 4398046511104) \<and>
   (8826879347785729 / 4398046511104 :: rat) \<notin> \<int>"
proof -
  have d2: "is_double (131730289100587 / 1125899906842624)"
    unfolding is_double_def by (rule double_0_117_below)
  have d1: "is_double (4519362226066293 / 2251799813685248)"
    unfolding is_double_def by (rule double_2_007)
  have m: "fmul (truncateTo3Decimals (Fin (4519362226066293 / 2251799813685248))) (Fin 1000) = Fin (8826879347785729 / 4398046511104)"
    unfolding truncateTo3Decimals_at_2_007 fmul.simps mul_2_007_1000 ..
  have ni: "(8826879347785729 / 4398046511104 :: rat) \<notin> \<int>"
    by (rule not_int_between[where n = 2007]) simp_all
  have x0: "(0::rat) \<le> 131730289100587 / 1125899906842624" and gt: "\<not> (8430738502437569 / 72057594037927936 :: rat) \<le> 131730289100587 / 1125899906842624"
    by simp_all
  show ?thesis
    by (intro conjI d2 x0 truncateTo3Decimals_at_0_117_below gt d1 truncateTo3Decimals_at_2_007 m ni)
qed

section \<open>calculatePureWeight\<close>

lemma lit_0_995: "rnd (199 / 200) = Fin (8962163258467287 / 9007199254740992)"
  by (rule rnd_eval [where k = "- 1" and m = 8962163258467287]) simp_all

lemma mul_10_0_995: "rnd (10 * (8962163258467287 / 9007199254740992)) = Fin (2800676018271027 / 281474976710656)"
  by (rule rnd_eval [where k = 3 and m = 5601352036542054]) simp_all

lemma lit_9_95: "rnd (199 / 20) = Fin (2800676018271027 / 281474976710656)"
  by (rule rnd_eval [where k = 3 and m = 5601352036542054]) simp_all

lemma truncateTo3Decimals_at_9_95: "truncateTo3Decimals (Fin (2800676018271027 / 281474976710656)) = Fin (2800676018271027 / 281474976710656)"
proof -
  have p: "rnd (2800676018271027 / 281474976710656 * 1000) = Fin (9950)"
    by (rule rnd_eval [where k = 13 and m = 5470070348185600]) simp_all
  have f: "\<lfloor>(9950 :: rat)\<rfloor> = 9950"
    by (rule floor_unique) simp_all
  have t: "rnd (rat_of_int 9950 / 1000) = Fin (2800676018271027 / 281474976710656)"
    by (rule rnd_eval [where k = 3 and m = 5601352036542054]) simp_all
  show ?thesis
    unfolding truncateTo3Decimals_def fmul.simps p Math_floor.simps f fdiv.simps t ..
qed

lemma truncateTo3Decimals_at_995: "truncateTo3Decimals (Fin (995)) = Fin (995)"
proof -
  have p: "rnd (995 * 1000) = Fin (995000)"
    by (rule rnd_eval [where k = 19 and m = 8546984919040000]) simp_all
  have f: "\<lfloor>(995000 :: rat)\<rfloor> = 995000"
    by (rule floor_unique) simp_all
  have t: "rnd (rat_of_int 995000 / 1000) = Fin (995)"
    by (rule rnd_eval [where k = 9 and m = 8752112557096960]) simp_all
  show ?thesis
    unfolding truncateTo3Decimals_def fmul.simps p Math_floor.simps f fdiv.simps t ..
qed

lemma div_995_100: "rnd (995 / 100) = Fin (2800676018271027 / 281474976710656)"
  by (rule rnd_eval [where k = 3 and m = 5601352036542054]) simp_all

text \<open>
  C1, as amended: \<open>calculatePureWeight\<close> truncates \<open>grossWeight * purity\<close> with no
  division by 100, the purity being a fraction between 0 and 1 as its documentation
  says; in particular \<^verbatim>\<open>calculatePureWeight(10, 0.995)\<close> is \<^verbatim>\<open>9.95\<close> (a decimal
  literal denotes the nearest double).
\<close>

theorem calculatePureWeight_fraction:
  "calculatePureWeight g p = truncateTo3Decimals (fmul g p) \<and>
   calculatePureWeight (Fin 10) (rnd (199 / 200)) = rnd (199 / 20)"
proof -
  have "calculatePureWeight (Fin 10) (rnd (199 / 200)) = rnd (199 / 20)"
    unfolding calculatePureWeight_def lit_0_995 fmul.simps mul_10_0_995 truncateTo3Decimals_at_9_95 lit_9_95 ..
  then show ?thesis by (simp add: calculatePureWeight_def)
qed

text \<open>
  C1, counterexample: the claim as stated fails: \<^verbatim>\<open>calculatePureWeight(10, 99.5)\<close> is 995, not 9.95.
\<close>

theorem calculatePureWeight_percent_counterexample:
  "calculatePureWeight (Fin 10) (Fin (199 / 2)) = Fin 995 \<and>
   spec_calculatePureWeight (Fin 10) (Fin (199 / 2)) = rnd (199 / 20) \<and>
   calculatePureWeight (Fin 10) (Fin (199 / 2)) \<noteq> rnd (199 / 20) \<and>
   calculatePureWeight (Fin 10) (Fin (199 / 2)) \<noteq> spec_calculatePureWeight (Fin 10) (Fin (199 / 2))"
proof -
  have m: "fmul (Fin 10) (Fin (199 / 2)) = Fin 995" by simp
  have c: "calculatePureWeight (Fin 10) (Fin (199 / 2)) = Fin 995"
    unfolding calculatePureWeight_def m truncateTo3Decimals_at_995 ..
  have s: "spec_calculatePureWeight (Fin 10) (Fin (199 / 2)) = rnd (199 / 20)"
    unfolding spec_calculatePureWeight_def m fdiv.simps div_995_100 truncateTo3Decimals_at_9_95 lit_9_95 ..
  show ?thesis
    by (simp add: c s lit_9_95)
qed

section \<open>Non-finite arguments\<close>

lemma fmul_nonfinite: "\<not> finite_num a \<or> \<not> finite_num b \<Longrightarrow> \<not> finite_num (fmul a b)"
  by (cases a; cases b) simp_all

lemma fdiv_nonfinite: "\<not> finite_num a \<Longrightarrow> \<not> finite_num (fdiv a c)"
  by (cases a) simp_all

lemma Math_floor_nonfinite: "\<not> finite_num a \<Longrightarrow> \<not> finite_num (Math_floor a)"
  by (cases a) simp_all

lemma Math_round_nonfinite: "\<not> finite_num a \<Longrightarrow> \<not> finite_num (Math_round a)"
  by (cases a) simp_all

text \<open>
  C8, as amended: no valuation function ever fails. Every argument, finite or not, is
  accepted and a number is returned; a non-finite argument gives a non-finite result
  (\<^verbatim>\<open>NaN\<close> or an infinity).
\<close>

theorem valuation_never_rejects:
  "call_roundToNearest5 x = Inr (roundToNearest5 x) \<and>
   (\<not> finite_num x \<longrightarrow> \<not> finite_num (roundToNearest5 x)) \<and>
   call_truncateTo3Decimals x = Inr (truncateTo3Decimals x) \<and>
   (\<not> finite_num x \<longrightarrow> \<not> finite_num (truncateTo3Decimals x)) \<and>
   call_calculatePureWeight g p = Inr (calculatePureWeight g p) \<and>
   (\<not> finite_num g \<or> \<not> finite_num p \<longrightarrow> \<not> finite_num (calculatePureWeight g p))"
  by (simp add: call_roundToNearest5_def call_truncateTo3Decimals_def call_calculatePureWeight_def
      roundToNearest5_def truncateTo3Decimals_def calculatePureWeight_def
      fmul_nonfinite fdiv_nonfinite Math_floor_nonfinite Math_round_nonfinite)

text \<open>
  C8, witness: \<^verbatim>\<open>NaN\<close> and \<^verbatim>\<open>Infinity\<close> pass through; \<^verbatim>\<open>Infinity * 0\<close> is \<^verbatim>\<open>NaN\<close>.
\<close>

theorem valuation_never_rejects_witness:
  "\<not> finite_num NaN \<and> call_roundToNearest5 NaN = Inr NaN \<and>
   \<not> finite_num (truncateTo3Decimals NaN) \<and>
   \<not> finite_num PosInf \<and> \<not> finite_num (calculatePureWeight PosInf (Fin 0)) \<and>
   call_calculatePureWeight PosInf (Fin 0) = Inr NaN"
  using valuation_never_rejects[of NaN PosInf "Fin 0"]
  by (simp add: roundToNearest5_def calculatePureWeight_def truncateTo3Decimals_def)

text \<open>
  C8, counterexample: the claim as stated fails: non-finite arguments are not rejected.
\<close>

theorem valuation_invalid_input_counterexample:
  "call_roundToNearest5 NaN = Inr NaN \<and>
   call_truncateTo3Decimals PosInf = Inr PosInf \<and>
   call_calculatePureWeight NegInf (Fin 1) = Inr NegInf \<and>
   call_roundToNearest5 NaN \<noteq> Inl InvalidInput"
  by (simp add: call_roundToNearest5_def call_truncateTo3Decimals_def call_calculatePureWeight_def
      roundToNearest5_def truncateTo3Decimals_def calculatePureWeight_def)

section \<open>The derivation effect of the transaction form\<close>

lemma derive_effect_fields [simp]:
  "ledgerId (derive_effect c) = ledgerId c"
  "type (derive_effect c) = type c"
  "grossWeight (derive_effect c) = grossWeight c"
  "purity (derive_effect c) = purity c"
  "rate (derive_effect c) = rate c"
  "paidAmount (derive_effect c) = paidAmount c"
  by (simp_all add: derive_effect_def Let_def)

lemma derive_effect_amount:
  "amount (derive_effect c) = (if derives_amount c then Some (derived_amount c) else amount c)"
  by (auto simp: derive_effect_def Let_def derives_amount_def derived_amount_def derived_pureWeight_def
      weight_bearing_def truncateTo3Decimals_opt_def)

lemma derive_effect_pureWeight:
  "pureWeight (derive_effect c) =
     (if present (grossWeight c) \<and> present (purity c) \<and> weight_bearing (type c)
      then Some (derived_pureWeight c) else None)"
  by (auto simp: derive_effect_def Let_def derived_pureWeight_def weight_bearing_def
      truncateTo3Decimals_opt_def)

lemma derive_effect_roundedAmount:
  "roundedAmount (derive_effect c) =
     (if present (amount c) then Some (roundToNearest5 (the (amount c))) else None)"
  by (simp add: derive_effect_def Let_def)

lemma derive_effect_balance:
  "balance (derive_effect c) =
     (if present (amount c) \<and> paidAmount c \<noteq> None
      then Some (fsub (the (amount c)) (the (paidAmount c))) else None)"
  by (simp add: derive_effect_def Let_def)

lemma derives_amount_derive_effect [simp]:
  "derived_pureWeight (derive_effect c) = derived_pureWeight c"
  "derives_amount (derive_effect c) = derives_amount c"
  "derived_amount (derive_effect c) = derived_amount c"
  by (simp_all add: derives_amount_def derived_amount_def derived_pureWeight_def)

lemma NewTransaction_eqI:
  fixes a b :: NewTransaction
  assumes "ledgerId a = ledgerId b" "type a = type b" "grossWeight a = grossWeight b"
    "purity a = purity b" "rate a = rate b" "amount a = amount b" "paidAmount a = paidAmount b"
    "pureWeight a = pureWeight b" "roundedAmount a = roundedAmount b" "balance a = balance b"
  shows "a = b"
  using assms by (cases a, cases b) simp

lemma settle_amount:
  "amount (settle c) = (if derives_amount c then Some (derived_amount c) else amount c)"
  by (simp add: settle_def derive_effect_amount)

lemma settle_stable: "derive_effect (settle c) = settle c"
  by (rule NewTransaction_eqI)
    (simp_all add: settle_def derive_effect_amount derive_effect_pureWeight
      derive_effect_roundedAmount derive_effect_balance)

lemma settle_fields [simp]:
  "ledgerId (settle c) = ledgerId c"
  "type (settle c) = type c"
  "grossWeight (settle c) = grossWeight c"
  "purity (settle c) = purity c"
  "rate (settle c) = rate c"
  "paidAmount (settle c) = paidAmount c"
  by (simp_all add: settle_def)

lemma createTransaction_requests:
  "requests (snd (createTransaction fetch t w)) = requests w @ [POST (transactions_url (ledgerId t)) t]"
  by (simp add: createTransaction_def snd_catch_rethrow createTransaction_try_def Let_def
      transactions_url_def API_BASE_URL_def split: fetched.splits sum.splits)

lemma handleSubmit_requests:
  "transactionSchema c \<Longrightarrow>
   requests (handleSubmit fetch c w) = requests w @ [POST (transactions_url (ledgerId c)) c]"
  by (simp add: handleSubmit_def createTransaction_requests)

text \<open>
  C2, as amended: the derivation overwrites the form's amount with
  \<open>roundToNearest5 (pureWeight * rate)\<close> whenever gross weight, purity, rate and the derived
  pure weight are all present and non-zero and the type bears weight, whether or not the
  caller supplied an amount; otherwise the amount is left as supplied. The first run of
  the effect already writes that amount, the settled form is a fixed point of the effect,
  and it is what a valid submission posts.
\<close>

theorem amount_overwritten_by_derivation:
  "(derives_amount c \<longrightarrow> amount (settle c) = Some (derived_amount c)) \<and>
   (\<not> derives_amount c \<longrightarrow> amount (settle c) = amount c) \<and>
   amount (derive_effect c) = amount (settle c) \<and>
   derive_effect (settle c) = settle c \<and>
   (transactionSchema (settle c) \<longrightarrow>
      requests (handleSubmit fetch (settle c) w) =
        requests w @ [POST (transactions_url (ledgerId c)) (settle c)])"
  using handleSubmit_requests[of "settle c" fetch w]
  by (simp add: settle_amount derive_effect_amount settle_stable)

lemma typed123_derived:
  "derives_amount typed123" "derived_amount typed123 = Fin 500"
  by (simp_all add: typed123_def form0_def derives_amount_def derived_amount_def derived_pureWeight_def
      weight_bearing_def truncateTo3Decimals_def roundToNearest5_def)

lemma cash123_not_derived: "\<not> derives_amount cash123"
  by (simp add: cash123_def form0_def derives_amount_def weight_bearing_def)

lemma typed123_settled_valid: "transactionSchema (settle typed123)"
proof -
  have "amount (settle typed123) = Some (Fin 500)"
    using typed123_derived by (simp add: settle_amount)
  then show ?thesis
    by (simp add: transactionSchema_def is_number_def) (simp add: typed123_def form0_def)
qed

text \<open>
  C2, witness: a purchase of 10 g at purity 100 and rate 50 with a typed amount of 123, and a cash
  receipt of 123.
\<close>

theorem amount_overwritten_by_derivation_witness:
  "derives_amount typed123 \<and> amount (settle typed123) = Some (Fin 500) \<and>
   \<not> derives_amount cash123 \<and> amount (settle cash123) = Some (Fin 123) \<and>
   transactionSchema (settle typed123) \<and>
   requests (handleSubmit (\<lambda>u b. fetch_404) (settle typed123) world0) =
     requests world0 @ [POST (transactions_url (ledgerId typed123)) (settle typed123)]"
proof -
  note t1 = amount_overwritten_by_derivation[of typed123 "\<lambda>u b. fetch_404" world0]
  note t2 = amount_overwritten_by_derivation[of cash123 "\<lambda>u b. fetch_404" world0]
  have a1: "amount (settle typed123) = Some (Fin 500)"
    using t1 typed123_derived by simp
  have "amount (settle cash123) = amount cash123"
    using t2 cash123_not_derived by blast
  then have a2: "amount (settle cash123) = Some (Fin 123)"
    by (simp add: cash123_def)
  have a3: "requests (handleSubmit (\<lambda>u b. fetch_404) (settle typed123) world0) =
     requests world0 @ [POST (transactions_url (ledgerId typed123)) (settle typed123)]"
    using t1 typed123_settled_valid by blast
  show ?thesis
    by (intro conjI typed123_derived(1) a1 cash123_not_derived a2 typed123_settled_valid a3)
qed

text \<open>
  C2, counterexample: the claim as stated fails: the caller supplies the amount 123, the effect replaces it by
  500, and 500 is what is posted.
\<close>

theorem amount_overwritten_counterexample:
  "amount typed123 = Some (Fin 123) \<and>
   amount (settle typed123) = Some (Fin 500) \<and>
   transactionSchema (settle typed123) \<and>
   requests (handleSubmit (\<lambda>u b. fetch_ok created1) (settle typed123) world0) =
     [POST (transactions_url ''1'') (settle typed123)]"
proof -
  have a0: "amount typed123 = Some (Fin 123)" by (simp add: typed123_def)
  have a1: "amount (settle typed123) = Some (Fin 500)"
    using typed123_derived by (simp add: settle_amount)
  have a3: "requests (handleSubmit (\<lambda>u b. fetch_ok created1) (settle typed123) world0) =
     [POST (transactions_url ''1'') (settle typed123)]"
    using handleSubmit_requests[OF typed123_settled_valid, of "\<lambda>u b. fetch_ok created1" world0]
    by (simp add: world0_def typed123_def form0_def)
  show ?thesis
    by (intro conjI a0 a1 typed123_settled_valid a3)
qed

lemma mul_dust_1: "rnd (1 / 8192 * 1) = Fin (1 / 8192)"
  by (rule rnd_eval [where k = "- 13" and m = 4503599627370496]) simp_all

lemma mul_dust_1000: "rnd (1 / 8192 * 1000) = Fin (125 / 1024)"
  by (rule rnd_eval [where k = "- 4" and m = 8796093022208000]) simp_all

lemma dust_pureWeight: "derived_pureWeight dust = Fin 0"
proof -
  have f: "\<lfloor>125 / 1024 :: rat\<rfloor> = 0" by (rule floor_unique) simp_all
  have "truncateTo3Decimals (Fin (1 / 8192)) = Fin 0"
    unfolding truncateTo3Decimals_def fmul.simps mul_dust_1000 Math_floor.simps f by simp
  moreover have "fmul (Fin (1 / 8192)) (fdiv (Fin 100) 100) = Fin (1 / 8192)"
    using mul_dust_1 by simp
  ultimately show ?thesis
    by (simp add: derived_pureWeight_def dust_def form0_def)
qed

text \<open>
  C10: in the derivation effect a form value of 0 counts as absent. With amount 0 no
  balance (and no rounded amount) is derived, whatever the paid amount; with gross
  weight 0 or purity 0 no pure weight is derived and the amount is left alone; and a
  derived pure weight of 0 is stored but suppresses the derivation of the amount from
  the rate. In each case the derived values are those of the form with the value absent.
\<close>

theorem zero_treated_as_absent:
  "(amount c = Some (Fin 0) \<longrightarrow>
      balance (derive_effect c) = None \<and> roundedAmount (derive_effect c) = None \<and>
      balance (derive_effect c) = balance (derive_effect (c\<lparr>amount := None\<rparr>)) \<and>
      roundedAmount (derive_effect c) = roundedAmount (derive_effect (c\<lparr>amount := None\<rparr>))) \<and>
   (grossWeight c = Some (Fin 0) \<longrightarrow>
      pureWeight (derive_effect c) = None \<and> amount (derive_effect c) = amount c \<and>
      pureWeight (derive_effect c) = pureWeight (derive_effect (c\<lparr>grossWeight := None\<rparr>)) \<and>
      amount (derive_effect c) = amount (derive_effect (c\<lparr>grossWeight := None\<rparr>))) \<and>
   (purity c = Some (Fin 0) \<longrightarrow>
      pureWeight (derive_effect c) = None \<and> amount (derive_effect c) = amount c \<and>
      pureWeight (derive_effect c) = pureWeight (derive_effect (c\<lparr>purity := None\<rparr>)) \<and>
      amount (derive_effect c) = amount (derive_effect (c\<lparr>purity := None\<rparr>))) \<and>
   (present (grossWeight c) \<and> present (purity c) \<and> weight_bearing (type c) \<and>
      derived_pureWeight c = Fin 0 \<longrightarrow>
      pureWeight (derive_effect c) = Some (Fin 0) \<and> amount (derive_effect c) = amount c)"
  by (simp add: derive_effect_amount derive_effect_pureWeight derive_effect_roundedAmount
      derive_effect_balance derives_amount_def)

text \<open>
  C10, witness: a cash payment with amount 0 and a paid amount of 200; a purchase with gross weight 0;
  a purchase at purity 0; and a purchase of 1/8192 g, whose pure weight truncates to 0.
\<close>

theorem zero_treated_as_absent_witness:
  "(amount unpaid0 = Some (Fin 0) \<and> paidAmount unpaid0 = Some (Fin 200) \<and>
      balance (derive_effect unpaid0) = None \<and> roundedAmount (derive_effect unpaid0) = None) \<and>
   (grossWeight weightless = Some (Fin 0) \<and> weight_bearing (type weightless) \<and>
      pureWeight (derive_effect weightless) = None \<and>
      amount (derive_effect weightless) = Some (Fin 123)) \<and>
   (purity (typed123\<lparr>purity := Some (Fin 0)\<rparr>) = Some (Fin 0) \<and>
      pureWeight (derive_effect (typed123\<lparr>purity := Some (Fin 0)\<rparr>)) = None \<and>
      amount (derive_effect (typed123\<lparr>purity := Some (Fin 0)\<rparr>)) = Some (Fin 123)) \<and>
   (present (grossWeight dust) \<and> present (purity dust) \<and> weight_bearing (type dust) \<and>
      present (rate dust) \<and> derived_pureWeight dust = Fin 0 \<and>
      pureWeight (derive_effect dust) = Some (Fin 0) \<and>
      amount (derive_effect dust) = Some (Fin 123))"
proof -
  have u: "amount unpaid0 = Some (Fin 0)" "paidAmount unpaid0 = Some (Fin 200)"
    by (simp_all add: unpaid0_def)
  have w: "grossWeight weightless = Some (Fin 0)" "weight_bearing (type weightless)"
    "amount weightless = Some (Fin 123)"
    by (simp_all add: weightless_def form0_def weight_bearing_def)
  have p: "purity (typed123\<lparr>purity := Some (Fin 0)\<rparr>) = Some (Fin 0)"
    "amount (typed123\<lparr>purity := Some (Fin 0)\<rparr>) = Some (Fin 123)"
    by (simp_all add: typed123_def)
  have d: "present (grossWeight dust)" "present (purity dust)" "weight_bearing (type dust)"
    "present (rate dust)" "amount dust = Some (Fin 123)"
    by (simp_all add: dust_def form0_def weight_bearing_def)
  have a1: "balance (derive_effect unpaid0) = None" "roundedAmount (derive_effect unpaid0) = None"
    using zero_treated_as_absent[of unpaid0] u by blast+
  have a2: "pureWeight (derive_effect weightless) = None"
    "amount (derive_effect weightless) = Some (Fin 123)"
    using zero_treated_as_absent[of weightless] w by simp_all
  have a3: "pureWeight (derive_effect (typed123\<lparr>purity := Some (Fin 0)\<rparr>)) = None"
    "amount (derive_effect (typed123\<lparr>purity := Some (Fin 0)\<rparr>)) = Some (Fin 123)"
    using zero_treated_as_absent[of "typed123\<lparr>purity := Some (Fin 0)\<rparr>"] p by simp_all
  have a4: "pureWeight (derive_effect dust) = Some (Fin 0)"
    "amount (derive_effect dust) = Some (Fin 123)"
    using zero_treated_as_absent[of dust] d dust_pureWeight by simp_all
  show ?thesis
    by (intro conjI u w(1,2) p(1) d(1-4) dust_pureWeight a1 a2 a3 a4)
qed

end
